theory Spec2Isabelle
  imports Main
begin

section \<open>JavaScript values read by the web client\<close>

text \<open>
  The pages read the parsed body of a response (\<^verbatim>\<open>await response.json()\<close>) through
  property accesses and truthiness tests.  A parsed body is a JSON value; the result of a
  property access may also be \<^verbatim>\<open>undefined\<close>, which is \<open>None\<close> below.
  Numbers are kept as integers: the pages only test them for truthiness or print them.
\<close>

datatype json =
    JNull
  | JBool bool
  | JNum int
  | JStr string
  | JArr "json list"
  | JObj "(string \<times> json) list"

type_synonym jsval = "json option"

datatype js_error = TypeError | SyntaxError | NetworkFailure

text \<open>Truthiness, as \<^verbatim>\<open>if (v)\<close> and \<^verbatim>\<open>!v\<close> see it.\<close>

fun truthy :: "jsval \<Rightarrow> bool" where
  "truthy None = False"
| "truthy (Some JNull) = False"
| "truthy (Some (JBool b)) = b"
| "truthy (Some (JNum n)) = (n \<noteq> 0)"
| "truthy (Some (JStr s)) = (s \<noteq> [])"
| "truthy (Some (JArr xs)) = True"
| "truthy (Some (JObj kvs)) = True"

text \<open>
  Own property of a parsed value.  \<^verbatim>\<open>JSON.parse\<close> keeps the last of repeated keys.
  None of the keys the pages read is a property of a string, a number, a boolean or an
  array, so those give \<^verbatim>\<open>undefined\<close>.
\<close>

fun member_of :: "string \<Rightarrow> json \<Rightarrow> jsval" where
  "member_of k (JObj kvs) = map_of (rev kvs) k"
| "member_of k v = None"

text \<open>\<^verbatim>\<open>v.k\<close>: a TypeError on \<^verbatim>\<open>null\<close> and \<^verbatim>\<open>undefined\<close>.\<close>

fun get_prop :: "string \<Rightarrow> jsval \<Rightarrow> js_error + jsval" where
  "get_prop k None = Inl TypeError"
| "get_prop k (Some JNull) = Inl TypeError"
| "get_prop k (Some v) = Inr (member_of k v)"

text \<open>\<^verbatim>\<open>v?.k\<close>: \<^verbatim>\<open>undefined\<close> on \<^verbatim>\<open>null\<close> and \<^verbatim>\<open>undefined\<close>.\<close>

fun opt_prop :: "string \<Rightarrow> jsval \<Rightarrow> jsval" where
  "opt_prop k None = None"
| "opt_prop k (Some JNull) = None"
| "opt_prop k (Some v) = member_of k v"

text \<open>
  What \<^verbatim>\<open>await fetch(...)\<close> followed by \<^verbatim>\<open>response.json()\<close> can give: the fetch
  rejects, or there is a response with its \<^verbatim>\<open>ok\<close> flag and a body that parses
  (\<open>Some\<close>) or does not (\<open>None\<close>, \<^verbatim>\<open>response.json()\<close> rejects).
\<close>

datatype fetch_result =
    FetchRejected
  | Response bool "json option"

text \<open>The calls a handler makes that are visible outside it, in order.\<close>

datatype effect =
    Fetch string
  | MessageError string
  | MessageSuccess string
  | RouterPush string
  | ConsoleError string
  | ConsoleLog string
  | SetLoading bool
  | SetIsLogin bool
  | SetItem string string
  | SetCookie string
  | LoadUsers
  | LoadDatabases

section \<open>Admin page: \<^verbatim>\<open>checkAdminAccess\<close> (web/pages/admin/users.tsx)\<close>

definition check_failed :: "effect list" where
  "check_failed = [ConsoleError ''Admin access check failed:'', RouterPush ''/login'']"

definition checkAdminAccess :: "fetch_result \<Rightarrow> effect list" where
  "checkAdminAccess r = Fetch ''/api/v1/auth/me'' #
     (case r of
        FetchRejected \<Rightarrow> check_failed
      | Response ok body \<Rightarrow>
          if ok then
            (case body of
               None \<Rightarrow> check_failed
             | Some result \<Rightarrow>
                 (case get_prop ''data'' (Some result) of
                    Inl e \<Rightarrow> check_failed
                  | Inr d \<Rightarrow>
                      let user = opt_prop ''user'' d;
                          permissions = opt_prop ''permissions'' d
                      in if \<not> truthy (opt_prop ''is_superuser'' user)
                            \<and> \<not> truthy (opt_prop ''admin'' permissions)
                         then [MessageError ''Admin access required'', RouterPush ''/'']
                         else [LoadUsers, LoadDatabases]))
          else [RouterPush ''/login''])"

text \<open>
  The caller as the page sees it: authenticated when \<^verbatim>\<open>/api/v1/auth/me\<close> answered
  \<^verbatim>\<open>ok\<close> with a body that is a JSON value other than \<^verbatim>\<open>null\<close>; its superuser flag
  and its role's admin capability are the fields \<^verbatim>\<open>data.user.is_superuser\<close> and
  \<^verbatim>\<open>data.permissions.admin\<close> of that body.
\<close>

fun authenticated :: "fetch_result \<Rightarrow> bool" where
  "authenticated (Response True (Some JNull)) = False"
| "authenticated (Response True (Some result)) = True"
| "authenticated r = False"

fun body_of :: "fetch_result \<Rightarrow> jsval" where
  "body_of (Response ok body) = body"
| "body_of FetchRejected = None"

definition is_superuser_flag :: "fetch_result \<Rightarrow> bool" where
  "is_superuser_flag r =
     truthy (opt_prop ''is_superuser'' (opt_prop ''user'' (opt_prop ''data'' (body_of r))))"

definition admin_capability :: "fetch_result \<Rightarrow> bool" where
  "admin_capability r =
     truthy (opt_prop ''admin'' (opt_prop ''permissions'' (opt_prop ''data'' (body_of r))))"

definition admitted :: "effect list \<Rightarrow> bool" where
  "admitted tr = (tr = [Fetch ''/api/v1/auth/me'', LoadUsers, LoadDatabases])"

definition loads_data :: "effect list \<Rightarrow> bool" where
  "loads_data tr = (LoadUsers \<in> set tr \<or> LoadDatabases \<in> set tr)"

section \<open>Numbers and strings of the client\<close>

text \<open>\<^verbatim>\<open>n.toString()\<close> and \<^verbatim>\<open>`${n}`\<close> for an integer: its decimal digits.\<close>

definition digit_char :: "nat \<Rightarrow> char" where
  "digit_char d = ''0123456789'' ! d"

function show_nat :: "nat \<Rightarrow> string" where
  "show_nat n = (if n < 10 then [digit_char n] else show_nat (n div 10) @ [digit_char (n mod 10)])"
  by pat_completeness auto
termination
  by (relation "measure (\<lambda>n. n)") auto

declare show_nat.simps [simp del]

definition show_int :: "int \<Rightarrow> string" where
  "show_int i = (if i < 0 then CHR ''-'' # show_nat (nat (- i)) else show_nat (nat i))"

fun join_comma :: "string list \<Rightarrow> string" where
  "join_comma [] = []"
| "join_comma [s] = s"
| "join_comma (s # ss) = s @ '','' @ join_comma ss"

text \<open>
  String conversion of a value inside a template literal.  An array prints its elements
  separated by commas, \<^verbatim>\<open>null\<close> elements as the empty string.
\<close>

fun js_string :: "json \<Rightarrow> string" where
  "js_string JNull = ''null''"
| "js_string (JBool b) = (if b then ''true'' else ''false'')"
| "js_string (JNum n) = show_int n"
| "js_string (JStr s) = s"
| "js_string (JArr xs) = join_comma (map (\<lambda>x. if x = JNull then [] else js_string x) xs)"
| "js_string (JObj kvs) = ''[object Object]''"

text \<open>
  \<^verbatim>\<open>parseInt(s)\<close> without a radix: leading white space is skipped, then an optional
  sign, then an optional \<^verbatim>\<open>0x\<close> prefix, then the longest run of digits of the radix;
  \<open>None\<close> is \<^verbatim>\<open>NaN\<close>.  White space is the ASCII white space.  The result is the
  exact integer: for the clock values the page compares it with, the comparison on doubles
  has the same outcome.
\<close>

definition js_space :: "char \<Rightarrow> bool" where
  "js_space c = (c \<in> set [CHR 0x09, CHR 0x0A, CHR 0x0B, CHR 0x0C, CHR 0x0D, CHR '' ''])"

definition in_range :: "char \<Rightarrow> char \<Rightarrow> char \<Rightarrow> bool" where
  "in_range lo hi c = ((of_char lo :: nat) \<le> of_char c \<and> (of_char c :: nat) \<le> of_char hi)"

definition digit_value :: "char \<Rightarrow> nat" where
  "digit_value c =
     (if in_range CHR ''0'' CHR ''9'' c then of_char c - of_char CHR ''0''
      else if in_range CHR ''a'' CHR ''z'' c then of_char c - of_char CHR ''a'' + 10
      else if in_range CHR ''A'' CHR ''Z'' c then of_char c - of_char CHR ''A'' + 10
      else 36)"

definition radix_digits :: "nat \<Rightarrow> string \<Rightarrow> int option" where
  "radix_digits R s =
     (let z = takeWhile (\<lambda>c. digit_value c < R) s
      in if z = [] then None
         else Some (foldl (\<lambda>a c. a * int R + int (digit_value c)) 0 z))"

definition strip_sign :: "string \<Rightarrow> int \<times> string" where
  "strip_sign s =
     (case s of
        c # cs \<Rightarrow> if c = CHR ''-'' then (- 1, cs) else if c = CHR ''+'' then (1, cs) else (1, s)
      | [] \<Rightarrow> (1, s))"

definition parseInt :: "string \<Rightarrow> int option" where
  "parseInt inputString =
     (let (sign, s) = strip_sign (dropWhile js_space inputString);
          (R, s') = (if take 2 s = ''0x'' \<or> take 2 s = ''0X'' then (16, drop 2 s) else (10, s))
      in map_option (\<lambda>m. sign * m) (radix_digits R s'))"

section \<open>What the pages take from outside this repository\<close>

text \<open>
  The two storage keys are constants of \<^verbatim>\<open>@/utils/constants\<close>; \<^verbatim>\<open>JSON.stringify\<close>,
  the translation function \<^verbatim>\<open>t\<close> and \<^verbatim>\<open>encodeURIComponent\<close> are library functions.
  \<open>json_stringify\<close> is the string \<^verbatim>\<open>localStorage.setItem\<close> stores for
  \<^verbatim>\<open>JSON.stringify(v)\<close>.
\<close>

record platform =
  STORAGE_USERINFO_KEY :: string
  STORAGE_USERINFO_VALID_TIME_KEY :: string
  json_stringify :: "jsval \<Rightarrow> string"
  translate :: "string \<Rightarrow> string"
  encodeURIComponent :: "string \<Rightarrow> string"

section \<open>Login page: \<^verbatim>\<open>handleLogin\<close> (web/pages/login.tsx)\<close>

definition login_caught :: "platform \<Rightarrow> effect list" where
  "login_caught p = [ConsoleError ''Login error:'', MessageError (translate p ''Login failed'')]"

text \<open>\<^verbatim>\<open>a || b\<close> on strings that may be missing.\<close>

definition or_else :: "jsval \<Rightarrow> string \<Rightarrow> string" where
  "or_else v d = (case v of Some x \<Rightarrow> if truthy v then js_string x else d | None \<Rightarrow> d)"

text \<open>\<^verbatim>\<open>router.query.redirect as string || '/'\<close>\<close>

definition redirect_target :: "string option \<Rightarrow> string" where
  "redirect_target redirect =
     (case redirect of Some q \<Rightarrow> if q \<noteq> [] then q else ''/'' | None \<Rightarrow> ''/'')"

definition session_cookie :: "json \<Rightarrow> string" where
  "session_cookie session_id =
     ''dbgpt_auth_session='' @ js_string session_id @ ''; path=/; max-age=''
       @ show_nat (30 * 24 * 60 * 60)"

text \<open>
  \<open>now\<close> is \<^verbatim>\<open>Date.now()\<close>, \<open>redirect\<close> is \<^verbatim>\<open>router.query.redirect\<close>, \<open>r\<close> is what
  the POST to \<^verbatim>\<open>/api/v1/auth/login\<close> gives.  The body of the \<^verbatim>\<open>try\<close> is
  \<open>login_try\<close>: \<open>Inl\<close> is an exception, which the \<^verbatim>\<open>catch\<close> turns into
  \<open>login_caught\<close>; \<^verbatim>\<open>finally\<close> resets the loading flag on every path.
\<close>

definition login_try :: "platform \<Rightarrow> int \<Rightarrow> string option \<Rightarrow> fetch_result \<Rightarrow> js_error + effect list" where
  "login_try p now redirect r =
     (case r of
        FetchRejected \<Rightarrow> Inl NetworkFailure
      | Response ok body \<Rightarrow>
          (case body of
             None \<Rightarrow> Inl SyntaxError
           | Some result \<Rightarrow>
               (case get_prop ''success'' (Some result) of
                  Inl e \<Rightarrow> Inl e
                | Inr success \<Rightarrow>
                    (case get_prop ''data'' (Some result) of
                       Inl e \<Rightarrow> Inl e
                     | Inr data \<Rightarrow>
                         if truthy success \<and> truthy (opt_prop ''success'' data) then
                           let user = opt_prop ''user'' data;
                               session_id = opt_prop ''session_id'' data
                           in Inr ([SetItem (STORAGE_USERINFO_KEY p) (json_stringify p user),
                                    SetItem (STORAGE_USERINFO_VALID_TIME_KEY p) (show_int now)]
                                   @ (case session_id of
                                        Some sid \<Rightarrow>
                                          if truthy session_id then [SetCookie (session_cookie sid)] else []
                                      | None \<Rightarrow> [])
                                   @ [MessageSuccess (translate p ''Login successful''),
                                      RouterPush (redirect_target redirect)])
                         else
                           Inr [MessageError
                                  (or_else (opt_prop ''message'' data) (translate p ''Login failed''))]))))"

definition handleLogin :: "platform \<Rightarrow> int \<Rightarrow> string option \<Rightarrow> fetch_result \<Rightarrow> effect list" where
  "handleLogin p now redirect r =
     [SetLoading True, Fetch ''/api/v1/auth/login'']
     @ (case login_try p now redirect r of Inl e \<Rightarrow> login_caught p | Inr es \<Rightarrow> es)
     @ [SetLoading False]"

text \<open>
  A login response as the page reads it: the login succeeded when both \<^verbatim>\<open>success\<close>
  and \<^verbatim>\<open>data.success\<close> are truthy; \<open>login_field k\<close> is \<^verbatim>\<open>data.k\<close>.
\<close>

definition login_succeeded :: "fetch_result \<Rightarrow> bool" where
  "login_succeeded r =
     (truthy (opt_prop ''success'' (body_of r))
      \<and> truthy (opt_prop ''success'' (opt_prop ''data'' (body_of r))))"

definition login_field :: "string \<Rightarrow> fetch_result \<Rightarrow> jsval" where
  "login_field k r = opt_prop k (opt_prop ''data'' (body_of r))"

section \<open>Application shell: \<^verbatim>\<open>handleAuth\<close> (web/pages/_app.tsx)\<close>

text \<open>
  \<open>ls\<close> is \<^verbatim>\<open>localStorage\<close> (\<^verbatim>\<open>getItem\<close> gives \<^verbatim>\<open>null\<close>, here \<open>None\<close>, for a
  missing key), \<open>now\<close> the clock at the validity test, \<open>now'\<close> the clock when the
  answer of the server is stored, \<open>me\<close> what a request to \<^verbatim>\<open>/api/v1/auth/me\<close> would
  give.
\<close>

definition thirty_days_ms :: int where
  "thirty_days_ms = 30 * 24 * 60 * 60 * 1000"

definition local_session_valid :: "platform \<Rightarrow> (string \<rightharpoonup> string) \<Rightarrow> int \<Rightarrow> bool" where
  "local_session_valid p ls now =
     (case (ls (STORAGE_USERINFO_KEY p), ls (STORAGE_USERINFO_VALID_TIME_KEY p)) of
        (Some userInfo, Some validTime) \<Rightarrow>
          userInfo \<noteq> [] \<and> validTime \<noteq> [] \<and>
          (case parseInt validTime of
             None \<Rightarrow> False
           | Some stored \<Rightarrow> now - stored < thirty_days_ms)
      | _ \<Rightarrow> False)"

definition auth_try :: "platform \<Rightarrow> int \<Rightarrow> fetch_result \<Rightarrow> js_error + effect list option" where
  "auth_try p now' me =
     (case me of
        FetchRejected \<Rightarrow> Inl NetworkFailure
      | Response ok body \<Rightarrow>
          if ok then
            (case body of
               None \<Rightarrow> Inl SyntaxError
             | Some result \<Rightarrow>
                 (case get_prop ''success'' (Some result) of
                    Inl e \<Rightarrow> Inl e
                  | Inr success \<Rightarrow>
                      if \<not> truthy success then Inr None
                      else
                        (case get_prop ''data'' (Some result) of
                           Inl e \<Rightarrow> Inl e
                         | Inr data \<Rightarrow>
                             let user = opt_prop ''user'' data
                             in if truthy user then
                                  Inr (Some [SetItem (STORAGE_USERINFO_KEY p) (json_stringify p user),
                                             SetItem (STORAGE_USERINFO_VALID_TIME_KEY p) (show_int now'),
                                             SetIsLogin True])
                                else Inr None)))
          else Inr None)"

definition handleAuth ::
  "platform \<Rightarrow> string \<Rightarrow> string \<Rightarrow> (string \<rightharpoonup> string) \<Rightarrow> int \<Rightarrow> int \<Rightarrow> fetch_result \<Rightarrow> effect list" where
  "handleAuth p pathname asPath ls now now' me =
     SetIsLogin False #
     (if pathname = ''/login'' then [SetIsLogin True]
      else if local_session_valid p ls now then [SetIsLogin True]
      else
        Fetch ''/api/v1/auth/me'' #
        (case auth_try p now' me of
           Inr (Some es) \<Rightarrow> es
         | Inr None \<Rightarrow> [RouterPush (''/login?redirect='' @ encodeURIComponent p asPath)]
         | Inl e \<Rightarrow>
             [ConsoleLog ''Auth check failed:'',
              RouterPush (''/login?redirect='' @ encodeURIComponent p asPath)]))"

section \<open>The relational store of the migration scripts\<close>

text \<open>
  The scripts under \<^verbatim>\<open>assets/schema/upgrade/v0_8_0\<close> are data definition and insert
  statements.  A value is \<^verbatim>\<open>NULL\<close>, an integer (booleans are \<open>0\<close> and \<open>1\<close>, a
  \<^verbatim>\<open>DATETIME\<close> is a point on an integer clock) or a text.  A row lists its columns
  in the order of the table; a column a row does not list reads as \<^verbatim>\<open>NULL\<close>.
\<close>

datatype sql_value = SNull | SInt int | SText string

type_synonym row = "(string \<times> sql_value) list"

definition field :: "row \<Rightarrow> string \<Rightarrow> sql_value" where
  "field r c = (case map_of r c of Some v \<Rightarrow> v | None \<Rightarrow> SNull)"

datatype sql_default = NoDefault | DefaultInt int | DefaultCurrentTimestamp

record column =
  col_name :: string
  col_type :: string
  col_not_null :: bool
  col_default :: sql_default

text \<open>
  \<open>tbl_rowid\<close> is the \<^verbatim>\<open>INTEGER PRIMARY KEY AUTOINCREMENT\<close> column; \<open>tbl_unique\<close>
  holds one entry for each \<^verbatim>\<open>UNIQUE\<close> written in the table, on a column or as a named
  constraint; \<open>tbl_foreign\<close> holds (column, referenced table, referenced column).
\<close>

record table_def =
  tbl_name :: string
  tbl_columns :: "column list"
  tbl_rowid :: string
  tbl_unique :: "string list list"
  tbl_foreign :: "(string \<times> string \<times> string) list"

record table =
  tbl_def :: table_def
  tbl_rows :: "row list"
  tbl_seq :: int

text \<open>An index is (name, table, column).\<close>

record database =
  db_tables :: "table list"
  db_indexes :: "(string \<times> string \<times> string) list"

definition empty_db :: database where
  "empty_db = \<lparr>db_tables = [], db_indexes = []\<rparr>"

datatype sql_error =
    NoSuchTable
  | NotNullViolation
  | UniqueViolation
  | ForeignKeyViolation
  | StillReferenced

definition find_table :: "database \<Rightarrow> string \<Rightarrow> table option" where
  "find_table db n = find (\<lambda>t. tbl_name (tbl_def t) = n) (db_tables db)"

definition rows_of :: "database \<Rightarrow> string \<Rightarrow> row list" where
  "rows_of db n = (case find_table db n of Some t \<Rightarrow> tbl_rows t | None \<Rightarrow> [])"

definition put_table :: "table \<Rightarrow> database \<Rightarrow> database" where
  "put_table t db =
     db\<lparr>db_tables :=
          map (\<lambda>t'. if tbl_name (tbl_def t') = tbl_name (tbl_def t) then t else t') (db_tables db)\<rparr>"

subsection \<open>Inserting a row\<close>

text \<open>
  A column the statement does not name takes the next value of the sequence (the row id)
  or its default.
\<close>

definition default_value :: "sql_value \<Rightarrow> table \<Rightarrow> column \<Rightarrow> sql_value" where
  "default_value now t c =
     (if col_name c = tbl_rowid (tbl_def t) then SInt (tbl_seq t + 1)
      else case col_default c of
             NoDefault \<Rightarrow> SNull
           | DefaultInt i \<Rightarrow> SInt i
           | DefaultCurrentTimestamp \<Rightarrow> now)"

definition complete_row :: "sql_value \<Rightarrow> table \<Rightarrow> row \<Rightarrow> row" where
  "complete_row now t given =
     map (\<lambda>c. (col_name c,
                case map_of given (col_name c) of
                  Some v \<Rightarrow> v
                | None \<Rightarrow> default_value now t c))
         (tbl_columns (tbl_def t))"

definition agree_on :: "string list \<Rightarrow> row \<Rightarrow> row \<Rightarrow> bool" where
  "agree_on cols r r' = list_all (\<lambda>c. field r c \<noteq> SNull \<and> field r' c = field r c) cols"

definition violates_not_null :: "table_def \<Rightarrow> row \<Rightarrow> bool" where
  "violates_not_null d r =
     list_ex (\<lambda>c. col_not_null c \<and> field r (col_name c) = SNull) (tbl_columns d)"

definition violates_unique :: "table \<Rightarrow> row \<Rightarrow> bool" where
  "violates_unique t r =
     list_ex (\<lambda>cols. list_ex (agree_on cols r) (tbl_rows t))
       ([tbl_rowid (tbl_def t)] # tbl_unique (tbl_def t))"

definition violates_foreign :: "database \<Rightarrow> table_def \<Rightarrow> row \<Rightarrow> bool" where
  "violates_foreign db d r =
     list_ex (\<lambda>(c, rt, rc). field r c \<noteq> SNull
                \<and> \<not> list_ex (\<lambda>r'. field r' rc = field r c) (rows_of db rt))
       (tbl_foreign d)"

definition row_id :: "table \<Rightarrow> row \<Rightarrow> int" where
  "row_id t r = (case field r (tbl_rowid (tbl_def t)) of SInt i \<Rightarrow> i | _ \<Rightarrow> 0)"

definition insert_row :: "sql_value \<Rightarrow> database \<Rightarrow> string \<Rightarrow> row \<Rightarrow> sql_error + database" where
  "insert_row now db n given =
     (case find_table db n of
        None \<Rightarrow> Inl NoSuchTable
      | Some t \<Rightarrow>
          let r = complete_row now t given in
          if violates_not_null (tbl_def t) r then Inl NotNullViolation
          else if violates_unique t r then Inl UniqueViolation
          else if violates_foreign db (tbl_def t) r then Inl ForeignKeyViolation
          else Inr (put_table (t\<lparr>tbl_rows := tbl_rows t @ [r],
                                 tbl_seq := max (tbl_seq t) (row_id t r)\<rparr>) db))"

text \<open>
  \<^verbatim>\<open>INSERT OR IGNORE\<close> skips a row that violates a \<^verbatim>\<open>NOT NULL\<close> or \<^verbatim>\<open>UNIQUE\<close>
  constraint; a foreign key violation still fails.
\<close>

definition insert_or_ignore :: "sql_value \<Rightarrow> database \<Rightarrow> string \<Rightarrow> row \<Rightarrow> sql_error + database" where
  "insert_or_ignore now db n given =
     (case insert_row now db n given of
        Inl NotNullViolation \<Rightarrow> Inr db
      | Inl UniqueViolation \<Rightarrow> Inr db
      | other \<Rightarrow> other)"

subsection \<open>Updating rows\<close>

text \<open>
  \<^verbatim>\<open>UPDATE n SET c = v WHERE p\<close>, for a column \<open>c\<close> that no constraint of the table
  mentions.
\<close>

definition set_field :: "string \<Rightarrow> sql_value \<Rightarrow> row \<Rightarrow> row" where
  "set_field c v r = map (\<lambda>(k, x). if k = c then (k, v) else (k, x)) r"

definition update_where :: "database \<Rightarrow> string \<Rightarrow> (row \<Rightarrow> bool) \<Rightarrow> string \<Rightarrow> sql_value \<Rightarrow> database" where
  "update_where db n p c v =
     (case find_table db n of
        None \<Rightarrow> db
      | Some t \<Rightarrow>
          put_table (t\<lparr>tbl_rows := map (\<lambda>r. if p r then set_field c v r else r) (tbl_rows t)\<rparr>) db)"

text \<open>A \<^verbatim>\<open>BOOLEAN\<close> column holds true when it is a non-zero integer.\<close>

fun sql_true :: "sql_value \<Rightarrow> bool" where
  "sql_true (SInt i) = (i \<noteq> 0)"
| "sql_true v = False"

subsection \<open>Statements\<close>

text \<open>A value of an insert is a literal or a scalar subquery
  \<^verbatim>\<open>(SELECT col FROM tab WHERE wcol = v)\<close>.\<close>

datatype sql_expr =
    Lit sql_value
  | ScalarSelect string string string sql_value

fun eval_expr :: "database \<Rightarrow> sql_expr \<Rightarrow> sql_value" where
  "eval_expr db (Lit v) = v"
| "eval_expr db (ScalarSelect col tab wcol v) =
     (case filter (\<lambda>r. field r wcol = v) (rows_of db tab) of
        [] \<Rightarrow> SNull
      | r # rs \<Rightarrow> field r col)"

datatype stmt =
    CreateTableIfNotExists table_def
  | InsertOrIgnore string "string list" "sql_expr list list"
  | CreateIndexIfNotExists string string string
  | DropIndexIfExists string
  | DropTableIfExists string

fun insert_all :: "sql_value \<Rightarrow> string \<Rightarrow> string list \<Rightarrow> sql_expr list list \<Rightarrow> database \<Rightarrow> sql_error + database" where
  "insert_all now n cols [] db = Inr db"
| "insert_all now n cols (vs # rest) db =
     (case insert_or_ignore now db n (zip cols (map (eval_expr db) vs)) of
        Inl e \<Rightarrow> Inl e
      | Inr db' \<Rightarrow> insert_all now n cols rest db')"

text \<open>
  \<^verbatim>\<open>DROP TABLE\<close> is refused while another table declares a foreign key into the table;
  it removes the table's indexes with the table.
\<close>

definition referenced_by_other :: "database \<Rightarrow> string \<Rightarrow> bool" where
  "referenced_by_other db n =
     list_ex (\<lambda>t. tbl_name (tbl_def t) \<noteq> n
                \<and> list_ex (\<lambda>(c, rt, rc). rt = n) (tbl_foreign (tbl_def t)))
       (db_tables db)"

fun exec_stmt :: "sql_value \<Rightarrow> stmt \<Rightarrow> database \<Rightarrow> sql_error + database" where
  "exec_stmt now (CreateTableIfNotExists d) db =
     (case find_table db (tbl_name d) of
        Some t \<Rightarrow> Inr db
      | None \<Rightarrow>
          Inr (db\<lparr>db_tables := db_tables db @ [\<lparr>tbl_def = d, tbl_rows = [], tbl_seq = 0\<rparr>]\<rparr>))"
| "exec_stmt now (InsertOrIgnore n cols vss) db = insert_all now n cols vss db"
| "exec_stmt now (CreateIndexIfNotExists i n c) db =
     (if list_ex (\<lambda>(i', n', c'). i' = i) (db_indexes db) then Inr db
      else case find_table db n of
             None \<Rightarrow> Inl NoSuchTable
           | Some t \<Rightarrow> Inr (db\<lparr>db_indexes := db_indexes db @ [(i, n, c)]\<rparr>))"
| "exec_stmt now (DropIndexIfExists i) db =
     Inr (db\<lparr>db_indexes := filter (\<lambda>(i', n', c'). i' \<noteq> i) (db_indexes db)\<rparr>)"
| "exec_stmt now (DropTableIfExists n) db =
     (case find_table db n of
        None \<Rightarrow> Inr db
      | Some t \<Rightarrow>
          if referenced_by_other db n then Inl StillReferenced
          else Inr (db\<lparr>db_tables := filter (\<lambda>t. tbl_name (tbl_def t) \<noteq> n) (db_tables db),
                        db_indexes := filter (\<lambda>(i', n', c'). n' \<noteq> n) (db_indexes db)\<rparr>))"

fun run :: "sql_value \<Rightarrow> stmt list \<Rightarrow> database \<Rightarrow> sql_error + database" where
  "run now [] db = Inr db"
| "run now (s # ss) db =
     (case exec_stmt now s db of Inl e \<Rightarrow> Inl e | Inr db' \<Rightarrow> run now ss db')"

subsection \<open>\<^verbatim>\<open>auth_tables_up.sql\<close>\<close>

definition col :: "string \<Rightarrow> string \<Rightarrow> bool \<Rightarrow> sql_default \<Rightarrow> column" where
  "col n ty nn d = \<lparr>col_name = n, col_type = ty, col_not_null = nn, col_default = d\<rparr>"

definition roles_def :: table_def where
  "roles_def =
     \<lparr>tbl_name = ''dbgpt_serve_auth_roles'',
      tbl_columns =
        [col ''id'' ''INTEGER'' False NoDefault,
         col ''name'' ''VARCHAR(64)'' True NoDefault,
         col ''description'' ''VARCHAR(255)'' False NoDefault,
         col ''permissions'' ''TEXT'' False NoDefault,
         col ''gmt_created'' ''DATETIME'' False DefaultCurrentTimestamp,
         col ''gmt_modified'' ''DATETIME'' False DefaultCurrentTimestamp],
      tbl_rowid = ''id'',
      tbl_unique = [[''name''], [''name'']],
      tbl_foreign = []\<rparr>"

definition users_def :: table_def where
  "users_def =
     \<lparr>tbl_name = ''dbgpt_serve_auth_users'',
      tbl_columns =
        [col ''id'' ''INTEGER'' False NoDefault,
         col ''username'' ''VARCHAR(128)'' True NoDefault,
         col ''email'' ''VARCHAR(255)'' True NoDefault,
         col ''password_hash'' ''VARCHAR(255)'' True NoDefault,
         col ''salt'' ''VARCHAR(64)'' True NoDefault,
         col ''full_name'' ''VARCHAR(255)'' False NoDefault,
         col ''avatar_url'' ''VARCHAR(512)'' False NoDefault,
         col ''is_active'' ''BOOLEAN'' False (DefaultInt 1),
         col ''is_superuser'' ''BOOLEAN'' False (DefaultInt 0),
         col ''role_id'' ''INTEGER'' True NoDefault,
         col ''last_login'' ''DATETIME'' False NoDefault,
         col ''gmt_created'' ''DATETIME'' False DefaultCurrentTimestamp,
         col ''gmt_modified'' ''DATETIME'' False DefaultCurrentTimestamp],
      tbl_rowid = ''id'',
      tbl_unique = [[''username''], [''email''], [''username''], [''email'']],
      tbl_foreign = [(''role_id'', ''dbgpt_serve_auth_roles'', ''id'')]\<rparr>"

definition user_db_access_def :: table_def where
  "user_db_access_def =
     \<lparr>tbl_name = ''dbgpt_serve_auth_user_db_access'',
      tbl_columns =
        [col ''id'' ''INTEGER'' False NoDefault,
         col ''user_id'' ''INTEGER'' True NoDefault,
         col ''db_name'' ''VARCHAR(255)'' True NoDefault,
         col ''granted_by'' ''INTEGER'' True NoDefault,
         col ''is_active'' ''BOOLEAN'' False (DefaultInt 1),
         col ''gmt_created'' ''DATETIME'' False DefaultCurrentTimestamp,
         col ''gmt_modified'' ''DATETIME'' False DefaultCurrentTimestamp],
      tbl_rowid = ''id'',
      tbl_unique = [[''user_id'', ''db_name'']],
      tbl_foreign = [(''user_id'', ''dbgpt_serve_auth_users'', ''id''),
                     (''granted_by'', ''dbgpt_serve_auth_users'', ''id'')]\<rparr>"

definition sessions_def :: table_def where
  "sessions_def =
     \<lparr>tbl_name = ''dbgpt_serve_auth_sessions'',
      tbl_columns =
        [col ''id'' ''INTEGER'' False NoDefault,
         col ''session_id'' ''VARCHAR(255)'' True NoDefault,
         col ''user_id'' ''INTEGER'' True NoDefault,
         col ''jwt_token'' ''TEXT'' True NoDefault,
         col ''expires_at'' ''DATETIME'' True NoDefault,
         col ''is_active'' ''BOOLEAN'' False (DefaultInt 1),
         col ''user_agent'' ''VARCHAR(512)'' False NoDefault,
         col ''ip_address'' ''VARCHAR(45)'' False NoDefault,
         col ''gmt_created'' ''DATETIME'' False DefaultCurrentTimestamp,
         col ''gmt_modified'' ''DATETIME'' False DefaultCurrentTimestamp],
      tbl_rowid = ''id'',
      tbl_unique = [[''session_id'']],
      tbl_foreign = [(''user_id'', ''dbgpt_serve_auth_users'', ''id'')]\<rparr>"

definition user_permissions_blob :: string where
  "user_permissions_blob =
     ''{\"chat\": true, \"explore\": true, \"construct\": false, \"admin\": false}''"

definition admin_permissions_blob :: string where
  "admin_permissions_blob =
     ''{\"chat\": true, \"explore\": true, \"construct\": true, \"admin\": true}''"

definition insert_default_roles :: stmt where
  "insert_default_roles =
     InsertOrIgnore ''dbgpt_serve_auth_roles'' [''name'', ''description'', ''permissions'']
       [[Lit (SText ''user''), Lit (SText ''Regular user with chat and explore access''),
         Lit (SText user_permissions_blob)],
        [Lit (SText ''admin''), Lit (SText ''Administrator with full access''),
         Lit (SText admin_permissions_blob)]]"

definition seeded_password_hash :: string where
  "seeded_password_hash =
     ''f8c2e6b8c5a4d3e9f7b1a2c8d4e5f6g7h8i9j0k1l2m3n4o5p6q7r8s9t0u1v2w3x4y5z6''"

definition seeded_salt :: string where
  "seeded_salt = ''1234567890abcdef1234567890abcdef1234567890abcdef1234567890abcdef''"

definition insert_default_admin :: stmt where
  "insert_default_admin =
     InsertOrIgnore ''dbgpt_serve_auth_users''
       [''username'', ''email'', ''password_hash'', ''salt'', ''full_name'', ''is_superuser'',
        ''role_id'']
       [[Lit (SText ''admin''), Lit (SText ''admin@dbgpt.com''), Lit (SText seeded_password_hash),
         Lit (SText seeded_salt), Lit (SText ''Administrator''), Lit (SInt 1),
         ScalarSelect ''id'' ''dbgpt_serve_auth_roles'' ''name'' (SText ''admin'')]]"

definition auth_tables_up :: "stmt list" where
  "auth_tables_up =
     [CreateTableIfNotExists roles_def,
      CreateTableIfNotExists users_def,
      CreateTableIfNotExists user_db_access_def,
      CreateTableIfNotExists sessions_def,
      insert_default_roles,
      insert_default_admin,
      CreateIndexIfNotExists ''idx_users_username'' ''dbgpt_serve_auth_users'' ''username'',
      CreateIndexIfNotExists ''idx_users_email'' ''dbgpt_serve_auth_users'' ''email'',
      CreateIndexIfNotExists ''idx_users_role_id'' ''dbgpt_serve_auth_users'' ''role_id'',
      CreateIndexIfNotExists ''idx_user_db_access_user_id'' ''dbgpt_serve_auth_user_db_access'' ''user_id'',
      CreateIndexIfNotExists ''idx_user_db_access_db_name'' ''dbgpt_serve_auth_user_db_access'' ''db_name'',
      CreateIndexIfNotExists ''idx_sessions_session_id'' ''dbgpt_serve_auth_sessions'' ''session_id'',
      CreateIndexIfNotExists ''idx_sessions_user_id'' ''dbgpt_serve_auth_sessions'' ''user_id'',
      CreateIndexIfNotExists ''idx_sessions_expires_at'' ''dbgpt_serve_auth_sessions'' ''expires_at'']"

subsection \<open>\<^verbatim>\<open>auth_tables_down.sql\<close>\<close>

definition auth_tables_down :: "stmt list" where
  "auth_tables_down =
     [DropIndexIfExists ''idx_sessions_expires_at'',
      DropIndexIfExists ''idx_sessions_user_id'',
      DropIndexIfExists ''idx_sessions_session_id'',
      DropIndexIfExists ''idx_user_db_access_db_name'',
      DropIndexIfExists ''idx_user_db_access_user_id'',
      DropIndexIfExists ''idx_users_role_id'',
      DropIndexIfExists ''idx_users_email'',
      DropIndexIfExists ''idx_users_username'',
      DropTableIfExists ''dbgpt_serve_auth_sessions'',
      DropTableIfExists ''dbgpt_serve_auth_user_db_access'',
      DropTableIfExists ''dbgpt_serve_auth_users'',
      DropTableIfExists ''dbgpt_serve_auth_roles'']"

text \<open>The database after the bootstrap, at clock \<open>now\<close>.\<close>

definition seeded_db :: "int \<Rightarrow> database" where
  "seeded_db now =
     (case run (SInt now) auth_tables_up empty_db of Inr db \<Rightarrow> db | Inl e \<Rightarrow> empty_db)"

definition created_tables :: "stmt list \<Rightarrow> string list" where
  "created_tables ss = concat (map (\<lambda>s. case s of CreateTableIfNotExists d \<Rightarrow> [tbl_name d] | _ \<Rightarrow> []) ss)"

definition created_indexes :: "stmt list \<Rightarrow> string list" where
  "created_indexes ss = concat (map (\<lambda>s. case s of CreateIndexIfNotExists i n c \<Rightarrow> [i] | _ \<Rightarrow> []) ss)"

definition dropped_tables :: "stmt list \<Rightarrow> string list" where
  "dropped_tables ss = concat (map (\<lambda>s. case s of DropTableIfExists n \<Rightarrow> [n] | _ \<Rightarrow> []) ss)"

definition dropped_indexes :: "stmt list \<Rightarrow> string list" where
  "dropped_indexes ss = concat (map (\<lambda>s. case s of DropIndexIfExists i \<Rightarrow> [i] | _ \<Rightarrow> []) ss)"

text \<open>The names of the tables and of the indexes of a database.\<close>

definition table_name_set :: "database \<Rightarrow> string set" where
  "table_name_set db = (\<lambda>t. tbl_name (tbl_def t)) ` set (db_tables db)"

definition index_name_set :: "database \<Rightarrow> string set" where
  "index_name_set db = fst ` set (db_indexes db)"

definition is_drop :: "stmt \<Rightarrow> bool" where
  "is_drop s = (case s of DropIndexIfExists i \<Rightarrow> True | DropTableIfExists n \<Rightarrow> True | _ \<Rightarrow> False)"

section \<open>The authentication core behind the tables\<close>

text \<open>
  Modelled from the spec: the service that reads and writes these tables (credential
  store, password hasher, session manager, permission evaluator, database-access
  registry) is not among the sources.  Every operation of this section follows the design
  document, over the tables and the rows of the migration script.
\<close>

datatype auth_error = InvalidInput | Conflict | Unauthorized | Forbidden | NotFound | Internal

record permissions =
  chat :: bool
  explore :: bool
  construct :: bool
  admin :: bool

datatype capability = Chat | Explore | Construct | Admin

subsection \<open>Permission Evaluator\<close>

text \<open>
  Modelled from the spec: the parts of the reader of a \<^verbatim>\<open>permissions\<close> blob, a flat
  JSON object of booleans: splitting at a separator, trimming blanks, taking a string out
  of its quotes or an object out of its braces, and reading one \<^verbatim>\<open>"key": value\<close>
  member.
\<close>

primrec split_on :: "char \<Rightarrow> string \<Rightarrow> string list" where
  "split_on c [] = [[]]"
| "split_on c (x # xs) =
     (if x = c then [] # split_on c xs
      else case split_on c xs of p # ps \<Rightarrow> (x # p) # ps | [] \<Rightarrow> [[x]])"

definition trim :: "string \<Rightarrow> string" where
  "trim s = rev (dropWhile (\<lambda>c. c = CHR '' '') (rev (dropWhile (\<lambda>c. c = CHR '' '') s)))"

definition unwrap :: "char \<Rightarrow> char \<Rightarrow> string \<Rightarrow> string option" where
  "unwrap l r s =
     (case s of
        c # cs \<Rightarrow> if c = l \<and> cs \<noteq> [] \<and> last cs = r then Some (butlast cs) else None
      | [] \<Rightarrow> None)"

definition parse_bool :: "string \<Rightarrow> bool option" where
  "parse_bool s = (if s = ''true'' then Some True else if s = ''false'' then Some False else None)"

definition parse_member :: "string \<Rightarrow> (string \<times> bool) option" where
  "parse_member s =
     (case split_on CHR '':'' s of
        [k, v] \<Rightarrow>
          (case (unwrap CHR 0x22 CHR 0x22 (trim k), parse_bool (trim v)) of
             (Some k', Some b) \<Rightarrow> Some (k', b)
           | _ \<Rightarrow> None)
      | _ \<Rightarrow> None)"

text \<open>
  Modelled from the spec: the reader of a role's \<^verbatim>\<open>permissions\<close> column, which the
  design describes as a free-form blob parsed per role at read time into the four flags
  \<^verbatim>\<open>{chat, explore, construct, admin}\<close>.  It reads a flat JSON object of booleans and
  wants all four flags.
\<close>

definition parse_permissions :: "string \<Rightarrow> permissions option" where
  "parse_permissions blob =
     (case unwrap CHR ''{'' CHR ''}'' (trim blob) of
        None \<Rightarrow> None
      | Some body \<Rightarrow>
          (case those (map parse_member (split_on CHR '','' body)) of
             None \<Rightarrow> None
           | Some kvs \<Rightarrow>
               (case (map_of kvs ''chat'', map_of kvs ''explore'',
                      map_of kvs ''construct'', map_of kvs ''admin'') of
                  (Some a, Some b, Some c, Some d) \<Rightarrow>
                    Some \<lparr>chat = a, explore = b, construct = c, admin = d\<rparr>
                | _ \<Rightarrow> None)))"

definition role_of :: "database \<Rightarrow> row \<Rightarrow> row option" where
  "role_of db u =
     find (\<lambda>r. field r ''id'' = field u ''role_id'') (rows_of db ''dbgpt_serve_auth_roles'')"

definition role_name :: "database \<Rightarrow> row \<Rightarrow> sql_value" where
  "role_name db u = (case role_of db u of Some r \<Rightarrow> field r ''name'' | None \<Rightarrow> SNull)"

text \<open>
  Modelled from the spec: \<^verbatim>\<open>effectivePermissions(user)\<close> of the Permission Evaluator,
  which returns the permission row of the user's role.
\<close>

definition effectivePermissions :: "database \<Rightarrow> row \<Rightarrow> permissions option" where
  "effectivePermissions db u =
     (case role_of db u of
        None \<Rightarrow> None
      | Some r \<Rightarrow>
          (case field r ''permissions'' of
             SText blob \<Rightarrow> parse_permissions blob
           | _ \<Rightarrow> None))"

fun has_capability :: "permissions \<Rightarrow> capability \<Rightarrow> bool" where
  "has_capability p Chat = chat p"
| "has_capability p Explore = explore p"
| "has_capability p Construct = construct p"
| "has_capability p Admin = admin p"

text \<open>
  Modelled from the spec: \<^verbatim>\<open>requireCapability(user, capability)\<close>, which fails
  \<^verbatim>\<open>Forbidden\<close> when the capability is absent.
\<close>

definition requireCapability :: "database \<Rightarrow> row \<Rightarrow> capability \<Rightarrow> auth_error + unit" where
  "requireCapability db u cap =
     (case effectivePermissions db u of
        Some p \<Rightarrow> if has_capability p cap then Inr () else Inl Forbidden
      | None \<Rightarrow> Inl Forbidden)"

subsection \<open>Password Hasher\<close>

definition hex_char :: "char \<Rightarrow> bool" where
  "hex_char c = (c \<in> set ''0123456789abcdef'')"

definition is_hex_sha256 :: "string \<Rightarrow> bool" where
  "is_hex_sha256 s = (length s = 64 \<and> list_all hex_char s)"

text \<open>
  The lower-case hexadecimal encoding of a byte string (\<^verbatim>\<open>bytes.hex()\<close>), two digits
  for each byte; a byte is a number below 256.
\<close>

definition hex_digit :: "nat \<Rightarrow> char" where
  "hex_digit d = ''0123456789abcdef'' ! (d mod 16)"

definition hex_encode :: "nat list \<Rightarrow> string" where
  "hex_encode bs = concat (map (\<lambda>b. [hex_digit (b div 16), hex_digit b]) bs)"

text \<open>
  Modelled from the spec: \<^verbatim>\<open>verify(plaintext, hash, salt)\<close> of the Password Hasher.
  The key derivation \<^verbatim>\<open>pbkdf2_hmac(name, password, salt, iterations)\<close> is a library
  function and is the parameter \<open>kdf\<close>; the stored hash is the hexadecimal encoding of the
  derived key, and the default work factor is 100000 iterations of SHA-256.
\<close>

definition verify ::
  "(string \<Rightarrow> string \<Rightarrow> string \<Rightarrow> nat \<Rightarrow> nat list) \<Rightarrow> string \<Rightarrow> string \<Rightarrow> string \<Rightarrow> bool" where
  "verify kdf plaintext hash salt = (hex_encode (kdf ''sha256'' plaintext salt 100000) = hash)"


subsection \<open>Credential Store\<close>

definition find_user :: "database \<Rightarrow> int \<Rightarrow> row option" where
  "find_user db uid = find (\<lambda>u. field u ''id'' = SInt uid) (rows_of db ''dbgpt_serve_auth_users'')"

definition optional_text :: "string option \<Rightarrow> sql_value" where
  "optional_text s = (case s of Some x \<Rightarrow> SText x | None \<Rightarrow> SNull)"

text \<open>
  Modelled from the spec: \<^verbatim>\<open>createUser(username, email, passwordHash, salt, fullName,
  roleId)\<close> of the Credential Store, an insert into the users table that treats a
  violation of a uniqueness constraint as \<^verbatim>\<open>Conflict\<close>.  The result is paired with the
  database after the call.
\<close>

definition createUser ::
  "int \<Rightarrow> database \<Rightarrow> string \<Rightarrow> string \<Rightarrow> string \<Rightarrow> string \<Rightarrow> string option \<Rightarrow> int
     \<Rightarrow> (auth_error + row) \<times> database" where
  "createUser now db username email passwordHash salt fullName roleId =
     (let given = [(''username'', SText username), (''email'', SText email),
                   (''password_hash'', SText passwordHash), (''salt'', SText salt),
                   (''full_name'', optional_text fullName), (''role_id'', SInt roleId)]
      in case find_table db ''dbgpt_serve_auth_users'' of
           None \<Rightarrow> (Inl Internal, db)
         | Some t \<Rightarrow>
             (case insert_row (SInt now) db ''dbgpt_serve_auth_users'' given of
                Inl UniqueViolation \<Rightarrow> (Inl Conflict, db)
              | Inl e \<Rightarrow> (Inl Internal, db)
              | Inr db' \<Rightarrow> (Inr (complete_row (SInt now) t given), db')))"

subsection \<open>Session Manager\<close>

record token_claims =
  userId :: int
  sessionId :: string
  issuedAt :: int
  expiresAt :: int

text \<open>
  Modelled from the spec: \<^verbatim>\<open>issue(user, clientMeta)\<close> of the Session Manager.  The
  signing function, the session lifetime and the generated session identifier \<open>sid\<close> are
  parameters; the session is stored active (the default of the column) with
  \<^verbatim>\<open>expires_at = now + sessionTTL\<close>.
\<close>

definition issue ::
  "(token_claims \<Rightarrow> string) \<Rightarrow> int \<Rightarrow> int \<Rightarrow> database \<Rightarrow> int \<Rightarrow> string \<Rightarrow> sql_value \<Rightarrow> sql_value
     \<Rightarrow> (auth_error + string \<times> string) \<times> database" where
  "issue sign sessionTTL now db uid sid user_agent ip_address =
     (let token = sign \<lparr>userId = uid, sessionId = sid, issuedAt = now,
                         expiresAt = now + sessionTTL\<rparr>
      in case insert_row (SInt now) db ''dbgpt_serve_auth_sessions''
                [(''session_id'', SText sid), (''user_id'', SInt uid),
                 (''jwt_token'', SText token), (''expires_at'', SInt (now + sessionTTL)),
                 (''user_agent'', user_agent), (''ip_address'', ip_address)] of
           Inl e \<Rightarrow> (Inl Internal, db)
         | Inr db' \<Rightarrow> (Inr (sid, token), db'))"

definition before :: "int \<Rightarrow> sql_value \<Rightarrow> bool" where
  "before now v = (case v of SInt e \<Rightarrow> now < e | _ \<Rightarrow> False)"

text \<open>
  Modelled from the spec: \<^verbatim>\<open>validate(token)\<close> of the Session Manager.  \<open>decode\<close> is
  the verification of the signature with the current key, giving the claims of a token
  that verifies.  The stored record is the session the token names; the token must be the
  stored one, the record active and \<^verbatim>\<open>now < expires_at\<close>; every failure is
  \<^verbatim>\<open>Unauthorized\<close>.
\<close>

definition validate ::
  "(string \<Rightarrow> token_claims option) \<Rightarrow> database \<Rightarrow> int \<Rightarrow> string \<Rightarrow> auth_error + row" where
  "validate decode db now token =
     (case decode token of
        None \<Rightarrow> Inl Unauthorized
      | Some c \<Rightarrow>
          (case find (\<lambda>s. field s ''session_id'' = SText (sessionId c))
                  (rows_of db ''dbgpt_serve_auth_sessions'') of
             None \<Rightarrow> Inl Unauthorized
           | Some s \<Rightarrow>
               if field s ''jwt_token'' = SText token
                  \<and> sql_true (field s ''is_active'')
                  \<and> before now (field s ''expires_at'')
               then (case find (\<lambda>u. field u ''id'' = field s ''user_id'')
                            (rows_of db ''dbgpt_serve_auth_users'') of
                       None \<Rightarrow> Inl Unauthorized
                     | Some u \<Rightarrow> Inr u)
               else Inl Unauthorized))"

text \<open>Modelled from the spec: \<^verbatim>\<open>revoke(sessionId)\<close>, which sets \<^verbatim>\<open>active=false\<close>.\<close>

definition revoke :: "database \<Rightarrow> string \<Rightarrow> database" where
  "revoke db sid =
     update_where db ''dbgpt_serve_auth_sessions''
       (\<lambda>s. field s ''session_id'' = SText sid) ''is_active'' (SInt 0)"

subsection \<open>Database-Access Registry\<close>

text \<open>
  Modelled from the spec: the authorization check of an admin-only operation,
  \<^verbatim>\<open>is_superuser OR role.admin\<close>.
\<close>

definition is_admin :: "database \<Rightarrow> row \<Rightarrow> bool" where
  "is_admin db u =
     (sql_true (field u ''is_superuser'')
      \<or> (case effectivePermissions db u of Some p \<Rightarrow> admin p | None \<Rightarrow> False))"

definition grant_of :: "int \<Rightarrow> string \<Rightarrow> row \<Rightarrow> bool" where
  "grant_of uid n r = (field r ''user_id'' = SInt uid \<and> field r ''db_name'' = SText n)"

text \<open>
  Modelled from the spec: \<^verbatim>\<open>grant(granterId, granteeId, dbName)\<close> of the
  Database-Access Registry: \<^verbatim>\<open>Forbidden\<close> unless the granter is an admin,
  \<^verbatim>\<open>NotFound\<close> if the grantee does not exist, otherwise the row of
  \<^verbatim>\<open>(grantee, dbName)\<close> is reactivated if there is one and inserted if not.
\<close>

definition grant :: "int \<Rightarrow> database \<Rightarrow> int \<Rightarrow> int \<Rightarrow> string \<Rightarrow> (auth_error + unit) \<times> database" where
  "grant now db granterId granteeId dbName =
     (case find_user db granterId of
        None \<Rightarrow> (Inl Forbidden, db)
      | Some g \<Rightarrow>
          if \<not> is_admin db g then (Inl Forbidden, db)
          else
            (case find_user db granteeId of
               None \<Rightarrow> (Inl NotFound, db)
             | Some u \<Rightarrow>
                 if list_ex (grant_of granteeId dbName) (rows_of db ''dbgpt_serve_auth_user_db_access'')
                 then (Inr (),
                       update_where db ''dbgpt_serve_auth_user_db_access''
                         (grant_of granteeId dbName) ''is_active'' (SInt 1))
                 else
                   (case insert_row (SInt now) db ''dbgpt_serve_auth_user_db_access''
                           [(''user_id'', SInt granteeId), (''db_name'', SText dbName),
                            (''granted_by'', SInt granterId)] of
                      Inl e \<Rightarrow> (Inl Internal, db)
                    | Inr db' \<Rightarrow> (Inr (), db'))))"

definition active_grants :: "database \<Rightarrow> int \<Rightarrow> string \<Rightarrow> row list" where
  "active_grants db uid n =
     filter (\<lambda>r. grant_of uid n r \<and> sql_true (field r ''is_active''))
       (rows_of db ''dbgpt_serve_auth_user_db_access'')"

text \<open>
  What the table of grants satisfies after the migration and after every insert: it has
  the definition of the script, every row has the columns of the table, no row id is
  beyond the sequence, and no two rows have the same \<^verbatim>\<open>(user_id, db_name)\<close>.
\<close>

definition grants_table_ok :: "database \<Rightarrow> bool" where
  "grants_table_ok db =
     (case find_table db ''dbgpt_serve_auth_user_db_access'' of
        None \<Rightarrow> False
      | Some t \<Rightarrow>
          tbl_def t = user_db_access_def
          \<and> list_all (\<lambda>r. map fst r = map col_name (tbl_columns user_db_access_def)) (tbl_rows t)
          \<and> list_all (\<lambda>r. row_id t r \<le> tbl_seq t) (tbl_rows t)
          \<and> distinct (map (\<lambda>r. (field r ''user_id'', field r ''db_name'')) (tbl_rows t)))"


text \<open>
  The rows of the table after a first grant of \<open>n\<close> to \<open>u\<close>: one row for the pair,
  active, which a reactivation leaves as it is.
\<close>

definition granted :: "int \<Rightarrow> string \<Rightarrow> row list \<Rightarrow> bool" where
  "granted u n rows =
     (length (filter (grant_of u n) rows) = 1
      \<and> list_all (\<lambda>r. \<not> grant_of u n r \<or>
            (set_field ''is_active'' (SInt 1) r = r \<and> sql_true (field r ''is_active''))) rows)"


section \<open>Sample inputs\<close>

definition plain_user :: row where
  "plain_user = [(''id'', SInt 7), (''username'', SText ''alice''), (''role_id'', SInt 1)]"


definition me_plain_user :: fetch_result where
  "me_plain_user = Response True (Some (JObj
     [(''success'', JBool True),
      (''data'', JObj
         [(''user'', JObj [(''username'', JStr ''alice''), (''is_superuser'', JBool False)]),
          (''permissions'', JObj [(''chat'', JBool True), (''explore'', JBool True),
                                  (''construct'', JBool False), (''admin'', JBool False)])])]))"

definition sample_platform :: platform where
  "sample_platform =
     \<lparr>STORAGE_USERINFO_KEY = ''__db_gpt_uinfo_key'',
      STORAGE_USERINFO_VALID_TIME_KEY = ''__db_gpt_uinfo_vt_key'',
      json_stringify = (\<lambda>v. case v of None \<Rightarrow> ''undefined'' | Some x \<Rightarrow> js_string x),
      translate = (\<lambda>s. s),
      encodeURIComponent = (\<lambda>s. s)\<rparr>"

definition login_response :: "string \<Rightarrow> fetch_result" where
  "login_response token = Response True (Some (JObj
     [(''success'', JBool True),
      (''data'', JObj
         [(''success'', JBool True),
          (''user'', JObj [(''username'', JStr ''alice'')]),
          (''session_id'', JStr ''s3ss10n''),
          (''token'', JStr token)])]))"

definition login_response_without_session :: fetch_result where
  "login_response_without_session = Response True (Some (JObj
     [(''success'', JBool True),
      (''data'', JObj
         [(''success'', JBool True),
          (''user'', JObj [(''username'', JStr ''alice'')]),
          (''token'', JStr ''aaa.bbb.ccc'')])]))"

definition sample_storage :: "string \<rightharpoonup> string" where
  "sample_storage = [''__db_gpt_uinfo_key'' \<mapsto> ''alice'',
                     ''__db_gpt_uinfo_vt_key'' \<mapsto> ''1700000000000'']"

text \<open>The bootstrap database with one more user, and a toy signature.\<close>

definition sample_db :: database where
  "sample_db = snd (createUser 1 (seeded_db 0) ''alice'' ''alice@x.com'' ''0f'' ''ab'' None 1)"

definition sample_sign :: "token_claims \<Rightarrow> string" where
  "sample_sign c = ''signed:'' @ sessionId c"

definition sample_decode :: "string \<Rightarrow> token_claims option" where
  "sample_decode tok =
     (if take 7 tok = ''signed:''
      then Some \<lparr>userId = 2, sessionId = drop 7 tok, issuedAt = 10, expiresAt = 110\<rparr>
      else None)"



section \<open>Theorems\<close>

subsection \<open>The admin page's access check\<close>

lemma get_prop_opt_prop:
  "v \<noteq> JNull \<Longrightarrow> get_prop k (Some v) = Inr (opt_prop k (Some v))"
  by (cases v) simp_all

lemma authenticatedE:
  assumes "authenticated r"
  obtains result where "r = Response True (Some result)" "result \<noteq> JNull"
  using assms by (cases r rule: authenticated.cases) simp_all

lemma not_auth_trace:
  "\<not> authenticated r \<Longrightarrow> checkAdminAccess r = Fetch ''/api/v1/auth/me'' # check_failed
     \<or> checkAdminAccess r = [Fetch ''/api/v1/auth/me'', RouterPush ''/login'']"
  by (cases r rule: authenticated.cases) (simp_all add: checkAdminAccess_def)

lemma auth_trace:
  "authenticated r \<Longrightarrow> checkAdminAccess r = Fetch ''/api/v1/auth/me'' #
     (if \<not> is_superuser_flag r \<and> \<not> admin_capability r
      then [MessageError ''Admin access required'', RouterPush ''/'']
      else [LoadUsers, LoadDatabases])"
  by (erule authenticatedE)
    (simp add: checkAdminAccess_def get_prop_opt_prop is_superuser_flag_def admin_capability_def)

text \<open>
  C1.  Whatever \<^verbatim>\<open>/api/v1/auth/me\<close> answers, the admin page admits the caller (goes on
  to load the users and the databases) exactly when the caller is authenticated and has the
  superuser flag or the admin capability of its role; in every other case neither
  \<^verbatim>\<open>loadUsers\<close> nor \<^verbatim>\<open>loadDatabases\<close> is called.
\<close>

theorem admin_access_iff_superuser_or_admin:
  "admitted (checkAdminAccess r) = (authenticated r \<and> (is_superuser_flag r \<or> admin_capability r))
   \<and> loads_data (checkAdminAccess r)
       = (authenticated r \<and> (is_superuser_flag r \<or> admin_capability r))"
proof (cases "authenticated r")
  case True
  then show ?thesis
    by (auto simp add: auth_trace admitted_def loads_data_def)
next
  case False
  from not_auth_trace [OF this] show ?thesis
    using False by (auto simp add: admitted_def loads_data_def check_failed_def)
qed

text \<open>
  C7.  The admin page tells the two refusals apart: an authenticated caller with neither
  the superuser flag nor the admin capability gets the message \<^verbatim>\<open>Admin access required\<close>
  and is sent to \<^verbatim>\<open>/\<close>; a caller whose \<^verbatim>\<open>/api/v1/auth/me\<close> failed is sent to
  \<^verbatim>\<open>/login\<close>, without that message.
\<close>

theorem forbidden_and_unauthorized_redirect_apart:
  "(authenticated r \<and> \<not> is_superuser_flag r \<and> \<not> admin_capability r \<longrightarrow>
      checkAdminAccess r =
        [Fetch ''/api/v1/auth/me'', MessageError ''Admin access required'', RouterPush ''/''])
   \<and> (\<not> authenticated r \<longrightarrow>
      last (checkAdminAccess r) = RouterPush ''/login''
      \<and> MessageError ''Admin access required'' \<notin> set (checkAdminAccess r)
      \<and> RouterPush ''/'' \<notin> set (checkAdminAccess r))"
proof (cases "authenticated r")
  case True
  then show ?thesis by (simp add: auth_trace)
next
  case False
  from not_auth_trace [OF this] show ?thesis
    using False by (auto simp add: check_failed_def)
qed

theorem forbidden_and_unauthorized_redirect_apart_witness:
  "authenticated me_plain_user \<and> \<not> is_superuser_flag me_plain_user
   \<and> \<not> admin_capability me_plain_user
   \<and> checkAdminAccess me_plain_user =
        [Fetch ''/api/v1/auth/me'', MessageError ''Admin access required'', RouterPush ''/'']
   \<and> \<not> authenticated (Response False None)
   \<and> last (checkAdminAccess (Response False None)) = RouterPush ''/login''"
proof -
  have h1: "authenticated me_plain_user \<and> \<not> is_superuser_flag me_plain_user
      \<and> \<not> admin_capability me_plain_user"
    by (simp add: me_plain_user_def is_superuser_flag_def admin_capability_def)
  have h2: "\<not> authenticated (Response False None)" by simp
  from h1 h2 forbidden_and_unauthorized_redirect_apart [of me_plain_user]
    forbidden_and_unauthorized_redirect_apart [of "Response False None"]
  show ?thesis by blast
qed

subsection \<open>The login page\<close>

lemma truthy_opt_propD:
  "truthy (opt_prop k v) \<Longrightarrow> \<exists>x. v = Some x \<and> x \<noteq> JNull"
  by (cases "(k, v)" rule: opt_prop.cases) simp_all

lemma login_try_ok:
  assumes "login_succeeded r"
  shows "login_try p now redirect r =
     Inr ([SetItem (STORAGE_USERINFO_KEY p) (json_stringify p (login_field ''user'' r)),
           SetItem (STORAGE_USERINFO_VALID_TIME_KEY p) (show_int now)]
          @ (case login_field ''session_id'' r of
               Some sid \<Rightarrow> if truthy (Some sid) then [SetCookie (session_cookie sid)] else []
             | None \<Rightarrow> [])
          @ [MessageSuccess (translate p ''Login successful''), RouterPush (redirect_target redirect)])"
proof -
  from assms have "truthy (opt_prop ''success'' (body_of r))"
    by (simp add: login_succeeded_def)
  from truthy_opt_propD [OF this]
  obtain ok result where r: "r = Response ok (Some result)" and nn: "result \<noteq> JNull"
    by (cases r) auto
  show ?thesis
    using assms nn
    by (simp add: r login_try_def get_prop_opt_prop login_succeeded_def login_field_def
        cong: option.case_cong)
qed

text \<open>
  C8.  On a successful login whose response carries a session identifier (a truthy
  \<^verbatim>\<open>data.session_id\<close>), the page writes the user info and the clock to local storage
  and sets the cookie \<^verbatim>\<open>dbgpt_auth_session\<close> to that identifier with
  \<^verbatim>\<open>max-age=2592000\<close> (30 days), and does nothing else that persists; what it does
  depends on the response only through \<^verbatim>\<open>data.user\<close> and \<^verbatim>\<open>data.session_id\<close>, so a
  signed token in the response is neither stored nor sent on.
\<close>

theorem login_sets_session_cookie:
  assumes "login_succeeded r"
    and "login_field ''session_id'' r = Some sid"
    and "truthy (Some sid)"
  shows "handleLogin p now redirect r =
     [SetLoading True, Fetch ''/api/v1/auth/login'',
      SetItem (STORAGE_USERINFO_KEY p) (json_stringify p (login_field ''user'' r)),
      SetItem (STORAGE_USERINFO_VALID_TIME_KEY p) (show_int now),
      SetCookie (''dbgpt_auth_session='' @ js_string sid @ ''; path=/; max-age=2592000''),
      MessageSuccess (translate p ''Login successful''),
      RouterPush (redirect_target redirect),
      SetLoading False]
   \<and> (\<forall>r'. login_succeeded r'
          \<and> login_field ''user'' r' = login_field ''user'' r
          \<and> login_field ''session_id'' r' = login_field ''session_id'' r
        \<longrightarrow> handleLogin p now redirect r' = handleLogin p now redirect r)"
  using assms
  by (simp add: handleLogin_def login_try_ok session_cookie_def show_nat.simps digit_char_def)

theorem login_sets_session_cookie_witness:
  "login_succeeded (login_response ''aaa.bbb.ccc'')
   \<and> login_field ''session_id'' (login_response ''aaa.bbb.ccc'') = Some (JStr ''s3ss10n'')
   \<and> handleLogin sample_platform 1700000000000 None (login_response ''aaa.bbb.ccc'') =
       [SetLoading True, Fetch ''/api/v1/auth/login'',
        SetItem ''__db_gpt_uinfo_key'' ''[object Object]'',
        SetItem ''__db_gpt_uinfo_vt_key'' ''1700000000000'',
        SetCookie ''dbgpt_auth_session=s3ss10n; path=/; max-age=2592000'',
        MessageSuccess ''Login successful'',
        RouterPush ''/'',
        SetLoading False]
   \<and> handleLogin sample_platform 1700000000000 None (login_response ''xxx.yyy.zzz'') =
       handleLogin sample_platform 1700000000000 None (login_response ''aaa.bbb.ccc'')"
proof -
  have h1: "login_succeeded (login_response t)" for t
    by (simp add: login_succeeded_def login_response_def)
  have h2: "login_field ''session_id'' (login_response t) = Some (JStr ''s3ss10n'')" for t
    by (simp add: login_field_def login_response_def)
  have h3: "login_field ''user'' (login_response t) = Some (JObj [(''username'', JStr ''alice'')])" for t
    by (simp add: login_field_def login_response_def)
  have h4: "truthy (Some (JStr ''s3ss10n''))" by simp
  have h5: "show_int 1700000000000 = ''1700000000000''"
    by (simp add: show_int_def show_nat.simps digit_char_def)
  from login_sets_session_cookie [OF h1 h2 h4, of sample_platform 1700000000000 None "''aaa.bbb.ccc''"]
  show ?thesis
    using h1 h2 h3 h5 by (simp add: sample_platform_def redirect_target_def)
qed

text \<open>
  C8, as stated for every successful login, fails where the response carries no session
  identifier: the guard \<^verbatim>\<open>if (session_id)\<close> skips the cookie, and the login still
  completes.
\<close>

theorem login_without_session_id_sets_no_cookie:
  "login_succeeded login_response_without_session
   \<and> handleLogin sample_platform 1700000000000 None login_response_without_session =
       [SetLoading True, Fetch ''/api/v1/auth/login'',
        SetItem ''__db_gpt_uinfo_key'' ''[object Object]'',
        SetItem ''__db_gpt_uinfo_vt_key'' ''1700000000000'',
        MessageSuccess ''Login successful'',
        RouterPush ''/'',
        SetLoading False]"
proof -
  have 1: "login_succeeded login_response_without_session"
    by (simp add: login_succeeded_def login_response_without_session_def)
  have 2: "show_int 1700000000000 = ''1700000000000''"
    by (simp add: show_int_def show_nat.simps digit_char_def)
  from 1 2 show ?thesis
    by (simp add: handleLogin_def login_try_ok login_field_def
        login_response_without_session_def sample_platform_def redirect_target_def)
qed

subsection \<open>The application shell's login check\<close>

lemma parseInt_Some_nonempty: "parseInt s = Some n \<Longrightarrow> s \<noteq> []"
  by (auto simp add: parseInt_def strip_sign_def radix_digits_def)

text \<open>
  C9.  Away from \<^verbatim>\<open>/login\<close>, when local storage holds user info and a validity time
  less than 30 days (2592000000 ms) before the clock, the shell marks the client logged in
  and returns: no request to \<^verbatim>\<open>/api/v1/auth/me\<close> is made, and the outcome is the same
  whatever the server would have answered.  The server is asked again once the stored
  user info is gone or the clock is 30 days or more past the stored time.
\<close>

theorem local_session_skips_server_check:
  assumes "pathname \<noteq> ''/login''"
    and "ls (STORAGE_USERINFO_KEY p) = Some userInfo" and "userInfo \<noteq> []"
    and "ls (STORAGE_USERINFO_VALID_TIME_KEY p) = Some validTime"
    and "parseInt validTime = Some stored"
    and "now - stored < 2592000000"
  shows "handleAuth p pathname asPath ls now now' me = [SetIsLogin False, SetIsLogin True]
    \<and> Fetch ''/api/v1/auth/me'' \<notin> set (handleAuth p pathname asPath ls now now' me)
    \<and> (\<forall>me' now''. handleAuth p pathname asPath ls now now'' me'
                    = handleAuth p pathname asPath ls now now' me)
    \<and> (\<forall>cleared. cleared (STORAGE_USERINFO_KEY p) = None
          \<longrightarrow> Fetch ''/api/v1/auth/me'' \<in> set (handleAuth p pathname asPath cleared now now' me))
    \<and> (\<forall>later. later - stored \<ge> 2592000000
          \<longrightarrow> Fetch ''/api/v1/auth/me'' \<in> set (handleAuth p pathname asPath ls later now' me))"
proof -
  from assms have "local_session_valid p ls now"
    by (simp add: local_session_valid_def thirty_days_ms_def parseInt_Some_nonempty)
  with assms(1) have 1: "handleAuth p pathname asPath ls now now'' me' = [SetIsLogin False, SetIsLogin True]"
    for now'' me'
    by (simp add: handleAuth_def)
  have 2: "Fetch ''/api/v1/auth/me'' \<in> set (handleAuth p pathname asPath cleared now now' me)"
    if "cleared (STORAGE_USERINFO_KEY p) = None" for cleared
    using that assms(1) by (simp add: handleAuth_def local_session_valid_def)
  have 3: "Fetch ''/api/v1/auth/me'' \<in> set (handleAuth p pathname asPath ls later now' me)"
    if "later - stored \<ge> 2592000000" for later
    using that assms by (simp add: handleAuth_def local_session_valid_def thirty_days_ms_def)
  from 1 2 3 show ?thesis by simp
qed

theorem local_session_skips_server_check_witness:
  "''/chat'' \<noteq> ''/login''
   \<and> sample_storage (STORAGE_USERINFO_KEY sample_platform) = Some ''alice''
   \<and> sample_storage (STORAGE_USERINFO_VALID_TIME_KEY sample_platform) = Some ''1700000000000''
   \<and> parseInt ''1700000000000'' = Some 1700000000000
   \<and> (1702591999999::int) - 1700000000000 < 2592000000
   \<and> handleAuth sample_platform ''/chat'' ''/chat'' sample_storage 1702591999999 1702592000000
        (Response False None) = [SetIsLogin False, SetIsLogin True]
   \<and> Fetch ''/api/v1/auth/me'' \<in> set (handleAuth sample_platform ''/chat'' ''/chat''
        sample_storage 1702592000000 1702592000000 (Response False None))"
proof -
  have h1: "''/chat'' \<noteq> ''/login''" by simp
  have h2: "sample_storage (STORAGE_USERINFO_KEY sample_platform) = Some ''alice''"
    by (simp add: sample_storage_def sample_platform_def)
  have h3: "''alice'' \<noteq> []" by simp
  have h4: "sample_storage (STORAGE_USERINFO_VALID_TIME_KEY sample_platform) = Some ''1700000000000''"
    by (simp add: sample_storage_def sample_platform_def)
  have h5: "parseInt ''1700000000000'' = Some 1700000000000"
    by (simp add: parseInt_def strip_sign_def js_space_def radix_digits_def digit_value_def in_range_def)
  have h6: "(1702591999999::int) - 1700000000000 < 2592000000" by simp
  have h7: "(1702592000000::int) - 1700000000000 \<ge> 2592000000" by simp
  from local_session_skips_server_check
    [OF h1 h2 h3 h4 h5 h6, of "''/chat''" 1702592000000 "Response False None"]
  show ?thesis using h1 h2 h4 h5 h6 h7 by blast
qed

subsection \<open>The migration scripts and the bootstrap rows\<close>

lemma seeded_db_eq [code]:
  "seeded_db now =
     \<lparr>db_tables =
        [\<lparr>tbl_def = roles_def,
          tbl_rows =
            [[(''id'', SInt 1), (''name'', SText ''user''),
              (''description'', SText ''Regular user with chat and explore access''),
              (''permissions'', SText user_permissions_blob),
              (''gmt_created'', SInt now), (''gmt_modified'', SInt now)],
             [(''id'', SInt 2), (''name'', SText ''admin''),
              (''description'', SText ''Administrator with full access''),
              (''permissions'', SText admin_permissions_blob),
              (''gmt_created'', SInt now), (''gmt_modified'', SInt now)]],
          tbl_seq = 2\<rparr>,
         \<lparr>tbl_def = users_def,
          tbl_rows =
            [[(''id'', SInt 1), (''username'', SText ''admin''),
              (''email'', SText ''admin@dbgpt.com''),
              (''password_hash'', SText seeded_password_hash),
              (''salt'', SText seeded_salt),
              (''full_name'', SText ''Administrator''), (''avatar_url'', SNull),
              (''is_active'', SInt 1), (''is_superuser'', SInt 1),
              (''role_id'', SInt 2), (''last_login'', SNull),
              (''gmt_created'', SInt now), (''gmt_modified'', SInt now)]],
          tbl_seq = 1\<rparr>,
         \<lparr>tbl_def = user_db_access_def, tbl_rows = [], tbl_seq = 0\<rparr>,
         \<lparr>tbl_def = sessions_def, tbl_rows = [], tbl_seq = 0\<rparr>],
      db_indexes =
        [(''idx_users_username'', ''dbgpt_serve_auth_users'', ''username''),
         (''idx_users_email'', ''dbgpt_serve_auth_users'', ''email''),
         (''idx_users_role_id'', ''dbgpt_serve_auth_users'', ''role_id''),
         (''idx_user_db_access_user_id'', ''dbgpt_serve_auth_user_db_access'', ''user_id''),
         (''idx_user_db_access_db_name'', ''dbgpt_serve_auth_user_db_access'', ''db_name''),
         (''idx_sessions_session_id'', ''dbgpt_serve_auth_sessions'', ''session_id''),
         (''idx_sessions_user_id'', ''dbgpt_serve_auth_sessions'', ''user_id''),
         (''idx_sessions_expires_at'', ''dbgpt_serve_auth_sessions'', ''expires_at'')]\<rparr>"
  by code_simp

lemma run_up: "run (SInt now) auth_tables_up empty_db = Inr (seeded_db now)"
  by code_simp

lemma table_names [simp]:
  "tbl_name roles_def = ''dbgpt_serve_auth_roles''"
  "tbl_name users_def = ''dbgpt_serve_auth_users''"
  "tbl_name user_db_access_def = ''dbgpt_serve_auth_user_db_access''"
  "tbl_name sessions_def = ''dbgpt_serve_auth_sessions''"
  by (simp_all add: roles_def_def users_def_def user_db_access_def_def sessions_def_def)

lemma seeded_roles:
  "rows_of (seeded_db now) ''dbgpt_serve_auth_roles'' =
     [[(''id'', SInt 1), (''name'', SText ''user''),
       (''description'', SText ''Regular user with chat and explore access''),
       (''permissions'', SText user_permissions_blob),
       (''gmt_created'', SInt now), (''gmt_modified'', SInt now)],
      [(''id'', SInt 2), (''name'', SText ''admin''),
       (''description'', SText ''Administrator with full access''),
       (''permissions'', SText admin_permissions_blob),
       (''gmt_created'', SInt now), (''gmt_modified'', SInt now)]]"
  by (simp add: seeded_db_eq rows_of_def find_table_def)

lemma seeded_users:
  "rows_of (seeded_db now) ''dbgpt_serve_auth_users'' =
     [[(''id'', SInt 1), (''username'', SText ''admin''),
              (''email'', SText ''admin@dbgpt.com''),
              (''password_hash'', SText seeded_password_hash),
              (''salt'', SText seeded_salt),
              (''full_name'', SText ''Administrator''), (''avatar_url'', SNull),
              (''is_active'', SInt 1), (''is_superuser'', SInt 1),
              (''role_id'', SInt 2), (''last_login'', SNull),
              (''gmt_created'', SInt now), (''gmt_modified'', SInt now)]]"
  by (simp add: seeded_db_eq rows_of_def find_table_def)

lemma parse_user_blob:
  "parse_permissions user_permissions_blob =
     Some \<lparr>chat = True, explore = True, construct = False, admin = False\<rparr>"
  by code_simp

lemma parse_admin_blob:
  "parse_permissions admin_permissions_blob =
     Some \<lparr>chat = True, explore = True, construct = True, admin = True\<rparr>"
  by code_simp


lemma role_of_seeded:
  assumes "rows_of db ''dbgpt_serve_auth_roles'' = rows_of (seeded_db now) ''dbgpt_serve_auth_roles''"
  shows "role_of db u =
     (if field u ''role_id'' = SInt 1 then Some (hd (rows_of (seeded_db now) ''dbgpt_serve_auth_roles''))
      else if field u ''role_id'' = SInt 2
        then Some (hd (tl (rows_of (seeded_db now) ''dbgpt_serve_auth_roles'')))
      else None)"
  by (simp add: role_of_def assms seeded_roles field_def)

text \<open>
  C2.  In a database whose roles are the two bootstrap rows, a user whose role is
  \<^verbatim>\<open>user\<close> has the permissions chat, explore and neither construct nor admin, and
  \<^verbatim>\<open>requireCapability\<close> for construct fails \<^verbatim>\<open>Forbidden\<close>; a user whose role is
  \<^verbatim>\<open>admin\<close> has all four and the call succeeds; and the two seeded role rows carry
  exactly these four-flag records.
\<close>

theorem role_permission_matrix:
  assumes "rows_of db ''dbgpt_serve_auth_roles'' = rows_of (seeded_db now) ''dbgpt_serve_auth_roles''"
  shows "(role_name db u = SText ''user'' \<longrightarrow>
            effectivePermissions db u =
              Some \<lparr>chat = True, explore = True, construct = False, admin = False\<rparr>
            \<and> requireCapability db u Construct = Inl Forbidden)
       \<and> (role_name db u = SText ''admin'' \<longrightarrow>
            effectivePermissions db u =
              Some \<lparr>chat = True, explore = True, construct = True, admin = True\<rparr>
            \<and> requireCapability db u Construct = Inr ())
       \<and> map (\<lambda>r. (field r ''name'', field r ''permissions''))
            (rows_of (seeded_db now) ''dbgpt_serve_auth_roles'')
          = [(SText ''user'', SText user_permissions_blob),
             (SText ''admin'', SText admin_permissions_blob)]
       \<and> parse_permissions user_permissions_blob =
            Some \<lparr>chat = True, explore = True, construct = False, admin = False\<rparr>
       \<and> parse_permissions admin_permissions_blob =
            Some \<lparr>chat = True, explore = True, construct = True, admin = True\<rparr>"
  by (simp add: role_name_def effectivePermissions_def requireCapability_def
      role_of_seeded [OF assms] seeded_roles field_def parse_user_blob parse_admin_blob)

theorem role_permission_matrix_witness:
  "role_name (seeded_db 0) plain_user = SText ''user''
   \<and> effectivePermissions (seeded_db 0) plain_user =
        Some \<lparr>chat = True, explore = True, construct = False, admin = False\<rparr>
   \<and> requireCapability (seeded_db 0) plain_user Construct = Inl Forbidden
   \<and> role_name (seeded_db 0) (hd (rows_of (seeded_db 0) ''dbgpt_serve_auth_users'')) = SText ''admin''
   \<and> requireCapability (seeded_db 0) (hd (rows_of (seeded_db 0) ''dbgpt_serve_auth_users'')) Construct
       = Inr ()"
proof -
  have h0: "rows_of (seeded_db 0) ''dbgpt_serve_auth_roles''
      = rows_of (seeded_db 0) ''dbgpt_serve_auth_roles''" by simp
  have h1: "role_name (seeded_db 0) plain_user = SText ''user''"
    by (simp add: role_name_def role_of_def seeded_roles field_def plain_user_def)
  have h2: "role_name (seeded_db 0) (hd (rows_of (seeded_db 0) ''dbgpt_serve_auth_users''))
      = SText ''admin''"
    by (simp add: role_name_def role_of_def seeded_roles seeded_users field_def)
  from role_permission_matrix [OF h0, of plain_user] role_permission_matrix [OF h0, of "hd (rows_of (seeded_db 0) ''dbgpt_serve_auth_users'')"]
    h1 h2
  show ?thesis by simp
qed

lemma hex_digit_hex: "hex_char (hex_digit d)"
proof -
  have "d mod 16 < length ''0123456789abcdef''" by simp
  then show ?thesis
    unfolding hex_char_def hex_digit_def by (rule nth_mem)
qed

lemma hex_encode_hex: "list_all hex_char (hex_encode bs)"
  by (induction bs) (simp_all add: hex_encode_def hex_digit_hex)

lemma seeded_hash_not_hex: "\<not> list_all hex_char seeded_password_hash"
  by (simp add: seeded_password_hash_def hex_char_def)

text \<open>
  C3.  The password hash seeded for the bootstrap administrator has 70 characters, some of
  them outside \<^verbatim>\<open>0-9a-f\<close>: it is not a hexadecimal SHA-256 digest, it is not the
  hexadecimal encoding of any derived key, whatever the salt, and so verifying the
  documented default password against it fails.
\<close>

theorem seeded_admin_hash_is_no_digest:
  "map (\<lambda>u. (field u ''username'', field u ''password_hash''))
       (rows_of (seeded_db now) ''dbgpt_serve_auth_users'')
     = [(SText ''admin'', SText seeded_password_hash)]
   \<and> length seeded_password_hash = 70
   \<and> \<not> list_all hex_char seeded_password_hash
   \<and> \<not> is_hex_sha256 seeded_password_hash
   \<and> (\<forall>kdf salt. hex_encode (kdf ''sha256'' ''dbgpt2024'' salt 100000) \<noteq> seeded_password_hash)
   \<and> (\<forall>kdf salt. \<not> verify kdf ''dbgpt2024'' seeded_password_hash salt)"
proof -
  have 1: "map (\<lambda>u. (field u ''username'', field u ''password_hash''))
       (rows_of (seeded_db now) ''dbgpt_serve_auth_users'')
     = [(SText ''admin'', SText seeded_password_hash)]"
    by (simp add: seeded_users field_def)
  have 2: "length seeded_password_hash = 70"
    by (simp add: seeded_password_hash_def)
  have 3: "hex_encode bs \<noteq> seeded_password_hash" for bs
    using hex_encode_hex [of bs] seeded_hash_not_hex by auto
  from 1 2 3 seeded_hash_not_hex show ?thesis
    by (simp add: is_hex_sha256_def verify_def)
qed


lemma run_append:
  "run now (ss @ ss') db = (case run now ss db of Inl e \<Rightarrow> Inl e | Inr db' \<Rightarrow> run now ss' db')"
  by (induction ss arbitrary: db) (simp_all split: sum.splits)

lemma drop_index_name_set:
  "exec_stmt now (DropIndexIfExists i) db = Inr db'
     \<Longrightarrow> index_name_set db' = index_name_set db - {i} \<and> table_name_set db' = table_name_set db"
  by (auto simp add: index_name_set_def table_name_set_def)

lemma drop_table_name_set:
  "exec_stmt now (DropTableIfExists n) db = Inr db'
     \<Longrightarrow> table_name_set db' = table_name_set db - {n} \<and> index_name_set db' \<subseteq> index_name_set db"
  by (auto simp add: index_name_set_def table_name_set_def find_table_def find_None_iff
      split: option.splits if_splits)

lemma run_drops:
  "run now ss db = Inr db' \<Longrightarrow> list_all is_drop ss
     \<Longrightarrow> table_name_set db' = table_name_set db - set (dropped_tables ss)
         \<and> index_name_set db' \<subseteq> index_name_set db - set (dropped_indexes ss)"
proof (induction ss arbitrary: db)
  case Nil
  then show ?case by (simp add: dropped_tables_def dropped_indexes_def)
next
  case (Cons s ss)
  from Cons.prems(1) obtain d where d: "exec_stmt now s db = Inr d" and r: "run now ss d = Inr db'"
    by (auto split: sum.splits)
  from Cons.prems(2) have rest: "list_all is_drop ss" by simp
  note ih = Cons.IH [OF r rest]
  from Cons.prems(2) consider (index) i where "s = DropIndexIfExists i"
    | (table) n where "s = DropTableIfExists n"
    by (cases s) (simp_all add: is_drop_def)
  then show ?case
  proof cases
    case index
    with d have 1: "index_name_set d = index_name_set db - {i}"
      and 2: "table_name_set d = table_name_set db"
      by (simp_all add: drop_index_name_set)
    from index have 3: "dropped_tables (s # ss) = dropped_tables ss"
      and 4: "dropped_indexes (s # ss) = i # dropped_indexes ss"
      by (simp_all add: dropped_tables_def dropped_indexes_def)
    from ih show ?thesis unfolding 1 2 3 4 by auto
  next
    case table
    with d have 1: "table_name_set d = table_name_set db - {n}"
      and 2: "index_name_set d \<subseteq> index_name_set db"
      by (simp_all add: drop_table_name_set)
    from table have 3: "dropped_tables (s # ss) = n # dropped_tables ss"
      and 4: "dropped_indexes (s # ss) = dropped_indexes ss"
      by (simp_all add: dropped_tables_def dropped_indexes_def)
    from ih 2 show ?thesis unfolding 1 3 4 by auto
  qed
qed

lemma down_is_drops: "list_all is_drop auth_tables_down"
  by (simp add: auth_tables_down_def is_drop_def)

lemma down_drops_created:
  "dropped_indexes auth_tables_down = rev (created_indexes auth_tables_up)"
  "dropped_tables auth_tables_down = rev (created_tables auth_tables_up)"
  by (simp_all add: created_indexes_def dropped_indexes_def created_tables_def dropped_tables_def
      auth_tables_up_def auth_tables_down_def insert_default_roles_def insert_default_admin_def
      roles_def_def users_def_def user_db_access_def_def sessions_def_def)

lemma round_trip_leaves_nothing:
  assumes "run now (auth_tables_up @ auth_tables_down) db = Inr db'"
  shows "table_name_set db' \<inter> set (created_tables auth_tables_up) = {}
       \<and> index_name_set db' \<inter> set (created_indexes auth_tables_up) = {}"
proof -
  from assms obtain d where "run now auth_tables_down d = Inr db'"
    by (auto simp add: run_append split: sum.splits)
  from run_drops [OF this down_is_drops] show ?thesis
    by (auto simp add: down_drops_created)
qed

text \<open>
  C10.  On an empty database the up script creates the four tables and the eight indexes;
  the down script drops the same eight indexes and the same four tables, the tables in the
  reverse of the order of creation (sessions, user_db_access, users, roles), every
  statement succeeds, and nothing is left.  From any database, when the two scripts run
  through, none of the four tables and none of the eight indexes is left.
\<close>

theorem up_then_down_leaves_nothing:
  "run (SInt now) auth_tables_up empty_db = Inr (seeded_db now)
   \<and> map (\<lambda>t. tbl_name (tbl_def t)) (db_tables (seeded_db now)) = created_tables auth_tables_up
   \<and> map fst (db_indexes (seeded_db now)) = created_indexes auth_tables_up
   \<and> length (created_tables auth_tables_up) = 4
   \<and> length (created_indexes auth_tables_up) = 8
   \<and> dropped_indexes auth_tables_down = rev (created_indexes auth_tables_up)
   \<and> dropped_tables auth_tables_down = rev (created_tables auth_tables_up)
   \<and> dropped_tables auth_tables_down =
       [''dbgpt_serve_auth_sessions'', ''dbgpt_serve_auth_user_db_access'',
        ''dbgpt_serve_auth_users'', ''dbgpt_serve_auth_roles'']
   \<and> run (SInt now') auth_tables_down (seeded_db now) = Inr empty_db
   \<and> run (SInt now) (auth_tables_up @ auth_tables_down) empty_db = Inr empty_db
   \<and> (\<forall>db db'. run (SInt now) (auth_tables_up @ auth_tables_down) db = Inr db' \<longrightarrow>
          table_name_set db' \<inter> set (created_tables auth_tables_up) = {}
          \<and> index_name_set db' \<inter> set (created_indexes auth_tables_up) = {})"
proof -
  have 1: "run (SInt now) auth_tables_up empty_db = Inr (seeded_db now)"
    by (rule run_up)
  have 2: "map (\<lambda>t. tbl_name (tbl_def t)) (db_tables (seeded_db now)) = created_tables auth_tables_up"
    by (simp add: seeded_db_eq created_tables_def auth_tables_up_def
        insert_default_roles_def insert_default_admin_def)
  have 3: "map fst (db_indexes (seeded_db now)) = created_indexes auth_tables_up"
    by (simp add: seeded_db_eq created_indexes_def auth_tables_up_def
        insert_default_roles_def insert_default_admin_def)
  have 4: "length (created_tables auth_tables_up) = 4"
    by (simp add: created_tables_def auth_tables_up_def
        insert_default_roles_def insert_default_admin_def)
  have 5: "length (created_indexes auth_tables_up) = 8"
    by (simp add: created_indexes_def auth_tables_up_def
        insert_default_roles_def insert_default_admin_def)
  note 6 = down_drops_created(1)
  note 7 = down_drops_created(2)
  have 8: "dropped_tables auth_tables_down =
       [''dbgpt_serve_auth_sessions'', ''dbgpt_serve_auth_user_db_access'',
        ''dbgpt_serve_auth_users'', ''dbgpt_serve_auth_roles'']"
    by (simp add: dropped_tables_def auth_tables_down_def)
  have 9: "run (SInt now') auth_tables_down (seeded_db now) = Inr empty_db"
    by code_simp
  have 10: "run (SInt now) (auth_tables_up @ auth_tables_down) empty_db = Inr empty_db"
    by code_simp
  from 1 2 3 4 5 6 7 8 9 10 round_trip_leaves_nothing show ?thesis by blast
qed

theorem up_then_down_leaves_nothing_witness:
  "run (SInt 0) (auth_tables_up @ auth_tables_down) empty_db = Inr empty_db
   \<and> table_name_set empty_db \<inter> set (created_tables auth_tables_up) = {}
   \<and> index_name_set empty_db \<inter> set (created_indexes auth_tables_up) = {}
   \<and> run (SInt 0) auth_tables_down (seeded_db 0) = Inr empty_db"
  using up_then_down_leaves_nothing [of 0 0] by blast

subsection \<open>Facts about the store\<close>

lemma find_append_if:
  "find P (xs @ ys) = (case find P xs of None \<Rightarrow> find P ys | Some x \<Rightarrow> Some x)"
  by (induction xs) simp_all

lemma find_None_list_ex: "(find P xs = None) = (\<not> list_ex P xs)"
  by (induction xs) simp_all

lemma find_map_same:
  "(\<And>x. x \<in> set xs \<Longrightarrow> P (f x) = P x) \<Longrightarrow> find P (map f xs) = map_option f (find P xs)"
  by (induction xs) simp_all

lemma find_table_name: "find_table db n = Some t \<Longrightarrow> tbl_name (tbl_def t) = n"
  by (auto simp add: find_table_def find_Some_iff)

lemma find_replace:
  "find (\<lambda>t'. tbl_name (tbl_def t') = n)
     (map (\<lambda>t'. if tbl_name (tbl_def t') = tbl_name (tbl_def t) then t else t') ts)
   = (if n = tbl_name (tbl_def t)
      then (case find (\<lambda>t'. tbl_name (tbl_def t') = n) ts of None \<Rightarrow> None | Some x \<Rightarrow> Some t)
      else find (\<lambda>t'. tbl_name (tbl_def t') = n) ts)"
  by (induction ts) auto

lemma find_table_put_table:
  "find_table (put_table t db) n =
     (if n = tbl_name (tbl_def t)
      then (case find_table db n of None \<Rightarrow> None | Some x \<Rightarrow> Some t)
      else find_table db n)"
  by (simp add: find_table_def put_table_def find_replace)

lemma rows_of_put_other:
  "n \<noteq> tbl_name (tbl_def t) \<Longrightarrow> rows_of (put_table t db) n = rows_of db n"
  by (simp add: rows_of_def find_table_put_table)

lemma rows_of_put_same:
  assumes "find_table db (tbl_name (tbl_def t)) = Some t0"
  shows "rows_of (put_table t db) (tbl_name (tbl_def t)) = tbl_rows t"
  unfolding rows_of_def find_table_put_table using assms by simp

lemma map_of_set_field:
  "map_of (set_field c v r) c' =
     (if c' = c then map_option (\<lambda>x. v) (map_of r c) else map_of r c')"
  by (induction r) (auto simp add: set_field_def)

lemma field_set_field_other: "c' \<noteq> c \<Longrightarrow> field (set_field c v r) c' = field r c'"
  by (simp add: field_def map_of_set_field)

lemma field_set_field_same: "c \<in> set (map fst r) \<Longrightarrow> field (set_field c v r) c = v"
proof -
  assume "c \<in> set (map fst r)"
  then obtain x where "map_of r c = Some x"
    by (cases "map_of r c") (auto simp add: map_of_eq_None_iff)
  then show ?thesis by (simp add: field_def map_of_set_field)
qed

lemma set_field_idem: "set_field c v (set_field c v r) = set_field c v r"
  by (induction r) (simp_all add: set_field_def split: prod.splits)

lemma keys_set_field: "map fst (set_field c v r) = map fst r"
  by (induction r) (simp_all add: set_field_def split: prod.splits)

lemma rows_of_update_other:
  assumes "n' \<noteq> n"
  shows "rows_of (update_where db n p c v) n' = rows_of db n'"
proof (cases "find_table db n")
  case None
  then show ?thesis by (simp add: update_where_def)
next
  case (Some t)
  from find_table_name [OF Some] assms show ?thesis
    by (simp add: update_where_def Some rows_of_put_other)
qed

lemma rows_of_update_same:
  "rows_of (update_where db n p c v) n = map (\<lambda>r. if p r then set_field c v r else r) (rows_of db n)"
proof (cases "find_table db n")
  case None
  then show ?thesis by (simp add: update_where_def rows_of_def)
next
  case (Some t)
  let ?t' = "t\<lparr>tbl_rows := map (\<lambda>r. if p r then set_field c v r else r) (tbl_rows t)\<rparr>"
  have n: "tbl_name (tbl_def ?t') = n" using find_table_name [OF Some] by simp
  have "find_table db (tbl_name (tbl_def ?t')) = Some t" using Some n by simp
  from rows_of_put_same [OF this] have "rows_of (put_table ?t' db) n = tbl_rows ?t'"
    using n by simp
  then show ?thesis by (simp add: update_where_def Some rows_of_def)
qed

lemma insert_row_Inr:
  assumes "insert_row now db n given = Inr db'"
  obtains t where "find_table db n = Some t"
    and "\<not> violates_unique t (complete_row now t given)"
    and "\<not> violates_foreign db (tbl_def t) (complete_row now t given)"
    and "rows_of db' n = tbl_rows t @ [complete_row now t given]"
    and "\<And>n'. n' \<noteq> n \<Longrightarrow> rows_of db' n' = rows_of db n'"
proof (cases "find_table db n")
  case None
  with assms show ?thesis by (simp add: insert_row_def)
next
  case (Some t)
  let ?r = "complete_row now t given"
  let ?t' = "t\<lparr>tbl_rows := tbl_rows t @ [?r], tbl_seq := max (tbl_seq t) (row_id t ?r)\<rparr>"
  have n: "tbl_name (tbl_def ?t') = n" using find_table_name [OF Some] by simp
  from assms Some have u: "\<not> violates_unique t ?r"
    and f: "\<not> violates_foreign db (tbl_def t) ?r"
    and db': "db' = put_table ?t' db"
    by (simp_all add: insert_row_def Let_def split: if_splits)
  have "find_table db (tbl_name (tbl_def ?t')) = Some t" using Some n by simp
  from rows_of_put_same [OF this] have same: "rows_of db' n = tbl_rows t @ [?r]"
    using n db' by simp
  have other: "rows_of db' n' = rows_of db n'" if "n' \<noteq> n" for n'
    using that n db' rows_of_put_other [of n' ?t' db] by simp
  from Some u f same other show ?thesis by (rule that)
qed

subsection \<open>Credential Store\<close>

lemma complete_user_row:
  assumes "tbl_def t = users_def"
  shows "complete_row now t
           [(''username'', SText username), (''email'', SText email),
            (''password_hash'', SText passwordHash), (''salt'', SText salt),
            (''full_name'', fn), (''role_id'', SInt roleId)]
         = [(''id'', SInt (tbl_seq t + 1)), (''username'', SText username),
            (''email'', SText email), (''password_hash'', SText passwordHash),
            (''salt'', SText salt), (''full_name'', fn), (''avatar_url'', SNull),
            (''is_active'', SInt 1), (''is_superuser'', SInt 0), (''role_id'', SInt roleId),
            (''last_login'', SNull), (''gmt_created'', now), (''gmt_modified'', now)]"
  by (simp add: complete_row_def default_value_def assms users_def_def col_def)

lemma user_row_not_null:
  "\<not> violates_not_null users_def
        [(''id'', SInt i), (''username'', SText username),
         (''email'', SText email), (''password_hash'', SText passwordHash),
         (''salt'', SText salt), (''full_name'', fn), (''avatar_url'', a),
         (''is_active'', b), (''is_superuser'', c), (''role_id'', SInt roleId),
         (''last_login'', d), (''gmt_created'', e), (''gmt_modified'', f)]"
  by (simp add: violates_not_null_def users_def_def col_def field_def)

text \<open>
  C5.  When the users table, with the uniqueness constraints of the migration, already
  holds a row with the same username or the same email, \<^verbatim>\<open>createUser\<close> fails
  \<^verbatim>\<open>Conflict\<close> and the database after the call is the database before it: no row is
  added.
\<close>

theorem duplicate_registration_is_conflict:
  assumes "find_table db ''dbgpt_serve_auth_users'' = Some t"
    and "tbl_def t = users_def"
    and "r \<in> set (tbl_rows t)"
    and "field r ''username'' = SText username \<or> field r ''email'' = SText email"
  shows "createUser now db username email passwordHash salt fullName roleId = (Inl Conflict, db)
    \<and> length (rows_of (snd (createUser now db username email passwordHash salt fullName roleId))
                ''dbgpt_serve_auth_users'')
        = length (rows_of db ''dbgpt_serve_auth_users'')"
proof -
  let ?new = "[(''id'', SInt (tbl_seq t + 1)), (''username'', SText username),
            (''email'', SText email), (''password_hash'', SText passwordHash),
            (''salt'', SText salt), (''full_name'', optional_text fullName), (''avatar_url'', SNull),
            (''is_active'', SInt 1), (''is_superuser'', SInt 0), (''role_id'', SInt roleId),
            (''last_login'', SNull), (''gmt_created'', SInt now), (''gmt_modified'', SInt now)]"
  from assms(4) have "agree_on [''username''] ?new r \<or> agree_on [''email''] ?new r"
    by (auto simp add: agree_on_def field_def)
  with assms(3) have "list_ex (agree_on [''username''] ?new) (tbl_rows t)
      \<or> list_ex (agree_on [''email''] ?new) (tbl_rows t)"
    by (auto simp add: list_ex_iff)
  then have "violates_unique t ?new"
    by (auto simp add: violates_unique_def assms(2) users_def_def)
  then show ?thesis
    using user_row_not_null [of "tbl_seq t + 1" username email passwordHash salt
        "optional_text fullName" SNull "SInt 1" "SInt 0" roleId SNull "SInt now" "SInt now"]
    by (simp add: createUser_def insert_row_def assms(1) complete_user_row [OF assms(2)]
        assms(2))
qed

theorem duplicate_registration_is_conflict_witness:
  "createUser 5 sample_db ''alice'' ''other@x.com'' ''1e'' ''cd'' None 1 = (Inl Conflict, sample_db)
   \<and> createUser 5 sample_db ''bob'' ''admin@dbgpt.com'' ''1e'' ''cd'' None 1 = (Inl Conflict, sample_db)"
proof -
  let ?U = "''dbgpt_serve_auth_users''"
  let ?t = "the (find_table sample_db ?U)"
  have h1: "find_table sample_db ?U = Some ?t" by code_simp
  have h2: "tbl_def ?t = users_def" by code_simp
  have h3: "last (tbl_rows ?t) \<in> set (tbl_rows ?t)" by code_simp
  have h4: "field (last (tbl_rows ?t)) ''username'' = SText ''alice''
      \<or> field (last (tbl_rows ?t)) ''email'' = SText ''other@x.com''" by code_simp
  have h5: "hd (tbl_rows ?t) \<in> set (tbl_rows ?t)" by code_simp
  have h6: "field (hd (tbl_rows ?t)) ''username'' = SText ''bob''
      \<or> field (hd (tbl_rows ?t)) ''email'' = SText ''admin@dbgpt.com''" by code_simp
  from duplicate_registration_is_conflict [OF h1 h2 h3 h4]
    duplicate_registration_is_conflict [OF h1 h2 h5 h6]
  show ?thesis by simp
qed


subsection \<open>Session Manager\<close>

lemma complete_session_row:
  assumes "tbl_def t = sessions_def"
  shows "complete_row now t
           [(''session_id'', SText sid), (''user_id'', SInt uid),
            (''jwt_token'', SText token), (''expires_at'', SInt e),
            (''user_agent'', ua), (''ip_address'', ip)]
         = [(''id'', SInt (tbl_seq t + 1)), (''session_id'', SText sid), (''user_id'', SInt uid),
            (''jwt_token'', SText token), (''expires_at'', SInt e), (''is_active'', SInt 1),
            (''user_agent'', ua), (''ip_address'', ip),
            (''gmt_created'', now), (''gmt_modified'', now)]"
  by (simp add: complete_row_def default_value_def assms sessions_def_def col_def)

lemma no_session_with_id:
  assumes "tbl_def t = sessions_def"
    and "\<not> violates_unique t r" and "field r ''session_id'' = SText sid"
  shows "find (\<lambda>s. field s ''session_id'' = SText sid) (tbl_rows t) = None"
proof -
  from assms(2) have "\<not> list_ex (agree_on [''session_id''] r) (tbl_rows t)"
    by (simp add: violates_unique_def assms(1) sessions_def_def)
  then show ?thesis
    by (auto simp add: find_None_list_ex list_ex_iff agree_on_def assms(3))
qed

text \<open>
  C4.  A session issued at \<open>now0\<close> with lifetime \<open>sessionTTL\<close>, whose token verifies
  and names the session: \<^verbatim>\<open>validate\<close> returns the owning user at every instant before
  \<open>now0 + sessionTTL\<close> and fails \<^verbatim>\<open>Unauthorized\<close> at that instant and after it; it
  fails at every instant once the session is revoked (\<^verbatim>\<open>active=false\<close>); and it fails
  for any other token that verifies and names the session but is not the stored one.
\<close>

theorem issued_session_valid_until_expiry:
  assumes tab: "find_table db ''dbgpt_serve_auth_sessions'' = Some t" "tbl_def t = sessions_def"
    and issued: "issue sign sessionTTL now0 db uid sid ua ip = (Inr (sid, token), db')"
    and verifies: "decode token = Some c" "sessionId c = sid"
    and owner: "find_user db uid = Some u"
  shows "validate decode db' now token = (if now < now0 + sessionTTL then Inr u else Inl Unauthorized)
    \<and> validate decode (revoke db' sid) now token = Inl Unauthorized
    \<and> (\<forall>forged c'. forged \<noteq> token \<and> decode forged = Some c' \<and> sessionId c' = sid
          \<longrightarrow> validate decode db' now forged = Inl Unauthorized)"
proof -
  let ?given = "[(''session_id'', SText sid), (''user_id'', SInt uid),
            (''jwt_token'', SText token), (''expires_at'', SInt (now0 + sessionTTL)),
            (''user_agent'', ua), (''ip_address'', ip)]"
  let ?s = "[(''id'', SInt (tbl_seq t + 1)), (''session_id'', SText sid), (''user_id'', SInt uid),
            (''jwt_token'', SText token), (''expires_at'', SInt (now0 + sessionTTL)),
            (''is_active'', SInt 1), (''user_agent'', ua), (''ip_address'', ip),
            (''gmt_created'', SInt now0), (''gmt_modified'', SInt now0)]"
  let ?P = "\<lambda>s. field s ''session_id'' = SText sid"
  from issued have ins: "insert_row (SInt now0) db ''dbgpt_serve_auth_sessions'' ?given = Inr db'"
    and tok: "token = sign \<lparr>userId = uid, sessionId = sid, issuedAt = now0,
                              expiresAt = now0 + sessionTTL\<rparr>"
    by (auto simp add: issue_def Let_def split: sum.splits)
  from ins obtain t' where t': "find_table db ''dbgpt_serve_auth_sessions'' = Some t'"
    and uniq: "\<not> violates_unique t' (complete_row (SInt now0) t' ?given)"
    and fk: "\<not> violates_foreign db (tbl_def t') (complete_row (SInt now0) t' ?given)"
    and rows: "rows_of db' ''dbgpt_serve_auth_sessions''
                 = tbl_rows t' @ [complete_row (SInt now0) t' ?given]"
    and other: "\<And>n'. n' \<noteq> ''dbgpt_serve_auth_sessions'' \<Longrightarrow> rows_of db' n' = rows_of db n'"
    by (rule insert_row_Inr) blast
  from t' tab have tt: "t' = t" by simp
  have cr: "complete_row (SInt now0) t ?given = ?s"
    by (rule complete_session_row [OF tab(2)])
  have sid: "field ?s ''session_id'' = SText sid" by (simp add: field_def)
  from uniq have "\<not> violates_unique t ?s" by (simp add: tt cr)
  from no_session_with_id [OF tab(2) this sid]
  have none: "find ?P (tbl_rows t) = None" .
  have found: "find ?P (rows_of db' ''dbgpt_serve_auth_sessions'') = Some ?s"
    by (simp add: rows tt cr find_append_if none sid)
  have users: "rows_of db' ''dbgpt_serve_auth_users'' = rows_of db ''dbgpt_serve_auth_users''"
    by (rule other) simp
  from owner have usr: "find (\<lambda>u. field u ''id'' = SInt uid) (rows_of db' ''dbgpt_serve_auth_users'') = Some u"
    by (simp add: find_user_def users)
  have 1: "validate decode db' now token = (if now < now0 + sessionTTL then Inr u else Inl Unauthorized)"
    using verifies found usr by (simp add: validate_def field_def before_def)
  have 3: "validate decode db' now forged = Inl Unauthorized"
    if "forged \<noteq> token" "decode forged = Some c'" "sessionId c' = sid" for forged c'
    using that found by (simp add: validate_def field_def)
  have keep: "?P (if ?P x then set_field ''is_active'' (SInt 0) x else x) = ?P x" for x
    by (simp add: field_set_field_other)
  have "find ?P (rows_of (revoke db' sid) ''dbgpt_serve_auth_sessions'')
       = Some (set_field ''is_active'' (SInt 0) ?s)"
    unfolding revoke_def rows_of_update_same
    using find_map_same [of "rows_of db' ''dbgpt_serve_auth_sessions''" ?P
            "\<lambda>r. if ?P r then set_field ''is_active'' (SInt 0) r else r", OF keep]
    by (simp add: found sid)
  then have 2: "validate decode (revoke db' sid) now token = Inl Unauthorized"
    using verifies by (simp add: validate_def field_set_field_same)
  from 1 2 3 show ?thesis by blast
qed

theorem issued_session_valid_until_expiry_witness:
  "fst (issue sample_sign 100 10 sample_db 2 ''s1'' SNull SNull) = Inr (''s1'', ''signed:s1'')
   \<and> validate sample_decode (snd (issue sample_sign 100 10 sample_db 2 ''s1'' SNull SNull)) 109
        ''signed:s1'' = Inr (the (find_user sample_db 2))
   \<and> validate sample_decode (snd (issue sample_sign 100 10 sample_db 2 ''s1'' SNull SNull)) 110
        ''signed:s1'' = Inl Unauthorized
   \<and> validate sample_decode
        (revoke (snd (issue sample_sign 100 10 sample_db 2 ''s1'' SNull SNull)) ''s1'') 109
        ''signed:s1'' = Inl Unauthorized"
proof -
  let ?S = "''dbgpt_serve_auth_sessions''"
  let ?t = "the (find_table sample_db ?S)"
  let ?i = "issue sample_sign 100 10 sample_db 2 ''s1'' SNull SNull"
  have h1: "find_table sample_db ?S = Some ?t" by code_simp
  have h2: "tbl_def ?t = sessions_def" by code_simp
  have f: "fst ?i = Inr (''s1'', ''signed:s1'')" by code_simp
  then have h3: "?i = (Inr (''s1'', ''signed:s1''), snd ?i)" by (simp add: prod_eq_iff)
  have h4: "sample_decode ''signed:s1''
      = Some \<lparr>userId = 2, sessionId = ''s1'', issuedAt = 10, expiresAt = 110\<rparr>" by code_simp
  have h5: "sessionId \<lparr>userId = 2, sessionId = ''s1'', issuedAt = 10, expiresAt = 110\<rparr> = ''s1''"
    by simp
  have h6: "find_user sample_db 2 = Some (the (find_user sample_db 2))" by code_simp
  from issued_session_valid_until_expiry [where decode = sample_decode and now = 109, OF h1 h2 h3 h4 h5 h6]
    issued_session_valid_until_expiry [where decode = sample_decode and now = 110, OF h1 h2 h3 h4 h5 h6] f
  show ?thesis by simp
qed


subsection \<open>Database-Access Registry\<close>

lemma find_Some_list_ex: "find P xs = Some x \<Longrightarrow> list_ex P xs"
  by (cases "list_ex P xs") (simp_all add: find_None_list_ex [symmetric])

lemma distinct_filter_le_1:
  "distinct (map k xs) \<Longrightarrow> length (filter (\<lambda>x. k x = a) xs) \<le> 1"
proof (induction xs)
  case Nil
  then show ?case by simp
next
  case (Cons x xs)
  show ?case
  proof (cases "k x = a")
    case True
    with Cons.prems have "a \<notin> k ` set xs" by auto
    then have "filter (\<lambda>x. k x = a) xs = []" by (auto simp add: filter_empty_conv)
    with True show ?thesis by simp
  next
    case False
    with Cons show ?thesis by simp
  qed
qed

lemma grant_of_key:
  "grant_of u n r = ((field r ''user_id'', field r ''db_name'') = (SInt u, SText n))"
  by (simp add: grant_of_def)

lemma grant_of_set_field:
  "grant_of u n (set_field ''is_active'' v r) = grant_of u n r"
  by (simp add: grant_of_def field_set_field_other)

lemma complete_grant_row:
  assumes "tbl_def t = user_db_access_def"
  shows "complete_row now t
           [(''user_id'', SInt u), (''db_name'', SText n), (''granted_by'', SInt g)]
         = [(''id'', SInt (tbl_seq t + 1)), (''user_id'', SInt u), (''db_name'', SText n),
            (''granted_by'', SInt g), (''is_active'', SInt 1),
            (''gmt_created'', now), (''gmt_modified'', now)]"
  by (simp add: complete_row_def default_value_def assms user_db_access_def_def col_def)

lemma is_admin_roles:
  "rows_of db' ''dbgpt_serve_auth_roles'' = rows_of db ''dbgpt_serve_auth_roles''
     \<Longrightarrow> is_admin db' x = is_admin db x"
  by (simp add: is_admin_def effectivePermissions_def role_of_def)

lemma find_user_users:
  "rows_of db' ''dbgpt_serve_auth_users'' = rows_of db ''dbgpt_serve_auth_users''
     \<Longrightarrow> find_user db' x = find_user db x"
  by (simp add: find_user_def)

lemma granted_fixed:
  assumes "granted u n rows"
  shows "map (\<lambda>r. if grant_of u n r then set_field ''is_active'' (SInt 1) r else r) rows = rows"
proof -
  have "(if grant_of u n r then set_field ''is_active'' (SInt 1) r else r) = r"
    if "r \<in> set rows" for r
    using assms that by (auto simp add: granted_def list_all_iff)
  then show ?thesis by (simp add: map_idI)
qed

lemma granted_active:
  assumes "granted u n rows"
  shows "filter (\<lambda>r. grant_of u n r \<and> sql_true (field r ''is_active'')) rows
         = filter (grant_of u n) rows"
  using assms by (intro filter_cong) (auto simp add: granted_def list_all_iff)

lemma granted_ex: "granted u n rows \<Longrightarrow> list_ex (grant_of u n) rows"
proof -
  assume "granted u n rows"
  then have "filter (grant_of u n) rows \<noteq> []" by (auto simp add: granted_def)
  then show ?thesis by (auto simp add: filter_empty_conv list_ex_iff)
qed

lemma regrant:
  assumes "find_user db g = Some gr" and "is_admin db gr" and "find_user db u = Some ur"
    and "list_ex (grant_of u n) (rows_of db ''dbgpt_serve_auth_user_db_access'')"
  shows "grant now db g u n =
     (Inr (), update_where db ''dbgpt_serve_auth_user_db_access'' (grant_of u n)
                ''is_active'' (SInt 1))"
  using assms by (simp add: grant_def)

lemma grants_table_okE:
  assumes "grants_table_ok db"
  obtains t where "find_table db ''dbgpt_serve_auth_user_db_access'' = Some t"
    and "tbl_def t = user_db_access_def"
    and "list_all (\<lambda>r. map fst r = map col_name (tbl_columns user_db_access_def)) (tbl_rows t)"
    and "list_all (\<lambda>r. row_id t r \<le> tbl_seq t) (tbl_rows t)"
    and "distinct (map (\<lambda>r. (field r ''user_id'', field r ''db_name'')) (tbl_rows t))"
  using assms by (auto simp add: grants_table_ok_def split: option.splits)

lemma grant_new:
  assumes t: "find_table db ''dbgpt_serve_auth_user_db_access'' = Some t"
    and td: "tbl_def t = user_db_access_def"
    and ids: "list_all (\<lambda>r. row_id t r \<le> tbl_seq t) (tbl_rows t)"
    and g: "find_user db g = Some gr" and adm: "is_admin db gr" and u: "find_user db u = Some ur"
    and none: "\<not> list_ex (grant_of u n) (tbl_rows t)"
  shows "grant now db g u n =
     (Inr (),
      put_table
        (t\<lparr>tbl_rows := tbl_rows t @
               [[(''id'', SInt (tbl_seq t + 1)), (''user_id'', SInt u), (''db_name'', SText n),
                 (''granted_by'', SInt g), (''is_active'', SInt 1),
                 (''gmt_created'', SInt now), (''gmt_modified'', SInt now)]],
            tbl_seq := tbl_seq t + 1\<rparr>) db)"
proof -
  let ?A = "''dbgpt_serve_auth_user_db_access''"
  let ?P = "grant_of u n"
  let ?given = "[(''user_id'', SInt u), (''db_name'', SText n), (''granted_by'', SInt g)]"
  let ?new = "[(''id'', SInt (tbl_seq t + 1)), (''user_id'', SInt u), (''db_name'', SText n),
          (''granted_by'', SInt g), (''is_active'', SInt 1),
          (''gmt_created'', SInt now), (''gmt_modified'', SInt now)]"
  have rows: "rows_of db ?A = tbl_rows t" by (simp add: rows_of_def t)
  have cr: "complete_row (SInt now) t ?given = ?new" by (rule complete_grant_row [OF td])
  have nn: "\<not> violates_not_null user_db_access_def ?new"
    by (simp add: violates_not_null_def user_db_access_def_def col_def field_def)
  have noid: "\<not> list_ex (agree_on [''id''] ?new) (tbl_rows t)"
  proof
    assume "list_ex (agree_on [''id''] ?new) (tbl_rows t)"
    then obtain r where r: "r \<in> set (tbl_rows t)" and "field r ''id'' = SInt (tbl_seq t + 1)"
      by (auto simp add: list_ex_iff agree_on_def field_def)
    then have "row_id t r = tbl_seq t + 1"
      by (simp add: row_id_def td user_db_access_def_def)
    with ids r show False by (auto simp add: list_all_iff)
  qed
  have nopair: "\<not> list_ex (agree_on [''user_id'', ''db_name''] ?new) (tbl_rows t)"
  proof
    assume "list_ex (agree_on [''user_id'', ''db_name''] ?new) (tbl_rows t)"
    then obtain r where "r \<in> set (tbl_rows t)" and "?P r"
      by (auto simp add: list_ex_iff agree_on_def grant_of_def field_def)
    with none show False by (auto simp add: list_ex_iff)
  qed
  from noid nopair have nu: "\<not> violates_unique t ?new"
    by (simp add: violates_unique_def td user_db_access_def_def)
  from find_Some_list_ex [OF g [unfolded find_user_def]]
    find_Some_list_ex [OF u [unfolded find_user_def]]
  have nf: "\<not> violates_foreign db user_db_access_def ?new"
    by (simp add: violates_foreign_def user_db_access_def_def field_def)
  have rid: "row_id t ?new = tbl_seq t + 1"
    by (simp add: row_id_def td user_db_access_def_def field_def)
  have ins: "insert_row (SInt now) db ?A ?given =
      Inr (put_table (t\<lparr>tbl_rows := tbl_rows t @ [?new], tbl_seq := tbl_seq t + 1\<rparr>) db)"
    using nn nu nf by (simp add: insert_row_def t cr td Let_def rid)
  from none g adm u show ?thesis
    by (simp add: grant_def rows ins)
qed

lemma first_grant:
  assumes ok: "grants_table_ok db"
    and g: "find_user db g = Some gr" and adm: "is_admin db gr" and u: "find_user db u = Some ur"
  shows "\<exists>db1. grant now db g u n = (Inr (), db1)
           \<and> rows_of db1 ''dbgpt_serve_auth_users'' = rows_of db ''dbgpt_serve_auth_users''
           \<and> rows_of db1 ''dbgpt_serve_auth_roles'' = rows_of db ''dbgpt_serve_auth_roles''
           \<and> granted u n (rows_of db1 ''dbgpt_serve_auth_user_db_access'')"
proof -
  let ?A = "''dbgpt_serve_auth_user_db_access''"
  let ?P = "grant_of u n"
  let ?f = "\<lambda>r. if ?P r then set_field ''is_active'' (SInt 1) r else r"
  from ok obtain t where t: "find_table db ?A = Some t"
    and td: "tbl_def t = user_db_access_def"
    and cols: "list_all (\<lambda>r. map fst r = map col_name (tbl_columns user_db_access_def)) (tbl_rows t)"
    and ids: "list_all (\<lambda>r. row_id t r \<le> tbl_seq t) (tbl_rows t)"
    and dist: "distinct (map (\<lambda>r. (field r ''user_id'', field r ''db_name'')) (tbl_rows t))"
    by (rule grants_table_okE)
  have rows: "rows_of db ?A = tbl_rows t" by (simp add: rows_of_def t)
  have le1: "length (filter ?P (tbl_rows t)) \<le> 1"
    using distinct_filter_le_1 [OF dist, of "(SInt u, SText n)"]
    by (simp add: grant_of_key [abs_def])
  show ?thesis
  proof (cases "list_ex ?P (tbl_rows t)")
    case True
    let ?db1 = "update_where db ?A ?P ''is_active'' (SInt 1)"
    have 1: "grant now db g u n = (Inr (), ?db1)"
      using regrant [OF g adm u] True rows by simp
    have r1: "rows_of ?db1 ?A = map ?f (tbl_rows t)"
      by (simp add: rows_of_update_same rows)
    have "filter ?P (map ?f (tbl_rows t)) = map ?f (filter ?P (tbl_rows t))"
      by (simp add: filter_map o_def grant_of_set_field cong: if_cong)
    moreover from True have "filter ?P (tbl_rows t) \<noteq> []"
      by (auto simp add: filter_empty_conv list_ex_iff)
    ultimately have len: "length (filter ?P (map ?f (tbl_rows t))) = 1"
      using le1 by (cases "filter ?P (tbl_rows t)") simp_all
    have fx: "\<not> ?P (?f r) \<or> (set_field ''is_active'' (SInt 1) (?f r) = ?f r
                 \<and> sql_true (field (?f r) ''is_active''))"
      if "r \<in> set (tbl_rows t)" for r
    proof (cases "?P r")
      case False
      then show ?thesis by simp
    next
      case True
      from cols that have "map fst r = map col_name (tbl_columns user_db_access_def)"
        by (simp add: list_all_iff)
      then have "''is_active'' \<in> set (map fst r)"
        by (simp add: user_db_access_def_def col_def)
      with True show ?thesis
        by (simp add: set_field_idem field_set_field_same)
    qed
    have every: "list_all (\<lambda>r. \<not> ?P r \<or> (set_field ''is_active'' (SInt 1) r = r
                 \<and> sql_true (field r ''is_active''))) (map ?f (tbl_rows t))"
      unfolding list_all_iff
    proof
      fix x
      assume "x \<in> set (map ?f (tbl_rows t))"
      then have "x \<in> ?f ` set (tbl_rows t)" by (simp only: set_map)
      then obtain r where "r \<in> set (tbl_rows t)" and "x = ?f r" by (rule imageE)
      with fx [of r] show "\<not> ?P x \<or> (set_field ''is_active'' (SInt 1) x = x
                 \<and> sql_true (field x ''is_active''))"
        by blast
    qed
    have "granted u n (rows_of ?db1 ?A)"
      unfolding granted_def r1 using len every by blast
    moreover have "rows_of ?db1 ''dbgpt_serve_auth_users'' = rows_of db ''dbgpt_serve_auth_users''"
      by (rule rows_of_update_other) simp
    moreover have "rows_of ?db1 ''dbgpt_serve_auth_roles'' = rows_of db ''dbgpt_serve_auth_roles''"
      by (rule rows_of_update_other) simp
    ultimately show ?thesis using 1 by blast
  next
    case False
    let ?new = "[(''id'', SInt (tbl_seq t + 1)), (''user_id'', SInt u), (''db_name'', SText n),
            (''granted_by'', SInt g), (''is_active'', SInt 1),
            (''gmt_created'', SInt now), (''gmt_modified'', SInt now)]"
    let ?t' = "t\<lparr>tbl_rows := tbl_rows t @ [?new], tbl_seq := tbl_seq t + 1\<rparr>"
    let ?db1 = "put_table ?t' db"
    have 1: "grant now db g u n = (Inr (), ?db1)"
      by (rule grant_new [OF t td ids g adm u False])
    have n: "tbl_name (tbl_def ?t') = ?A" using find_table_name [OF t] by simp
    have "find_table db (tbl_name (tbl_def ?t')) = Some t" using t n by simp
    from rows_of_put_same [OF this] have r1: "rows_of ?db1 ?A = tbl_rows t @ [?new]"
      using n by simp
    have other: "rows_of ?db1 n' = rows_of db n'" if "n' \<noteq> ?A" for n'
      using that n rows_of_put_other [of n' ?t' db] by simp
    from False have none: "filter ?P (tbl_rows t) = []"
      by (auto simp add: filter_empty_conv list_ex_iff)
    have new: "?P ?new" by (simp add: grant_of_def field_def)
    have "granted u n (rows_of ?db1 ?A)"
      unfolding granted_def r1 using none new
      by (auto simp add: filter_empty_conv list_all_iff set_field_def field_def)
    moreover have "rows_of ?db1 ''dbgpt_serve_auth_users'' = rows_of db ''dbgpt_serve_auth_users''"
      by (rule other) simp
    moreover have "rows_of ?db1 ''dbgpt_serve_auth_roles'' = rows_of db ''dbgpt_serve_auth_roles''"
      by (rule other) simp
    ultimately show ?thesis using 1 by blast
  qed
qed

text \<open>The condition on the table of grants holds after the bootstrap and is kept by
  every grant.\<close>

lemma grants_table_ok_seeded: "grants_table_ok (seeded_db now)"
  by (simp add: grants_table_ok_def seeded_db_eq find_table_def)

lemma row_id_set_field:
  "tbl_def t = user_db_access_def \<Longrightarrow> row_id t' = row_id t
     \<Longrightarrow> row_id t' (set_field ''is_active'' v r) = row_id t r"
  by (simp add: row_id_def user_db_access_def_def field_set_field_other)

lemma list_all_map_if:
  "list_all Q xs \<Longrightarrow> (\<And>x. Q x \<Longrightarrow> Q (h x))
     \<Longrightarrow> list_all Q (map (\<lambda>r. if p r then h r else r) xs)"
  by (induction xs) simp_all

lemma update_keeps_table_ok:
  assumes ok: "grants_table_ok db"
  shows "grants_table_ok
           (update_where db ''dbgpt_serve_auth_user_db_access'' p ''is_active'' v)"
proof -
  let ?A = "''dbgpt_serve_auth_user_db_access''"
  let ?f = "\<lambda>r. if p r then set_field ''is_active'' v r else r"
  from ok obtain t where t: "find_table db ?A = Some t"
    and td: "tbl_def t = user_db_access_def"
    and cols: "list_all (\<lambda>r. map fst r = map col_name (tbl_columns user_db_access_def)) (tbl_rows t)"
    and ids: "list_all (\<lambda>r. row_id t r \<le> tbl_seq t) (tbl_rows t)"
    and dist: "distinct (map (\<lambda>r. (field r ''user_id'', field r ''db_name'')) (tbl_rows t))"
    by (rule grants_table_okE)
  let ?t' = "t\<lparr>tbl_rows := map ?f (tbl_rows t)\<rparr>"
  have n: "tbl_name (tbl_def ?t') = ?A" using find_table_name [OF t] by simp
  have ft: "find_table (update_where db ?A p ''is_active'' v) ?A = Some ?t'"
    using t n by (simp add: update_where_def find_table_put_table)
  have rid: "row_id ?t' (?f r) = row_id t r" for r
    by (simp add: row_id_def td user_db_access_def_def field_set_field_other)
  have key: "(field (?f r) ''user_id'', field (?f r) ''db_name'')
           = (field r ''user_id'', field r ''db_name'')" for r
    by (simp add: field_set_field_other)
  have c: "list_all (\<lambda>r. map fst r = map col_name (tbl_columns user_db_access_def)) (map ?f (tbl_rows t))"
    using cols by (rule list_all_map_if) (simp add: keys_set_field)
  have rid': "row_id ?t' r = row_id t r" for r by (simp add: row_id_def)
  have "list_all (\<lambda>r. row_id t r \<le> tbl_seq t) (map ?f (tbl_rows t))"
    using ids by (rule list_all_map_if) (simp add: row_id_def td user_db_access_def_def field_set_field_other)
  then have i: "list_all (\<lambda>r. row_id ?t' r \<le> tbl_seq ?t') (map ?f (tbl_rows t))"
    by (simp add: rid')
  have d: "distinct (map (\<lambda>r. (field r ''user_id'', field r ''db_name'')) (map ?f (tbl_rows t)))"
    using dist by (simp add: o_def key field_set_field_other cong: if_cong)
  from ft td c i d show ?thesis
    by (simp add: grants_table_ok_def)
qed

lemma grant_keeps_table_ok:
  assumes ok: "grants_table_ok db"
  shows "grants_table_ok (snd (grant now db g u n))"
proof -
  let ?A = "''dbgpt_serve_auth_user_db_access''"
  from ok obtain t where t: "find_table db ?A = Some t"
    and td: "tbl_def t = user_db_access_def"
    and cols: "list_all (\<lambda>r. map fst r = map col_name (tbl_columns user_db_access_def)) (tbl_rows t)"
    and ids: "list_all (\<lambda>r. row_id t r \<le> tbl_seq t) (tbl_rows t)"
    and dist: "distinct (map (\<lambda>r. (field r ''user_id'', field r ''db_name'')) (tbl_rows t))"
    by (rule grants_table_okE)
  have rows: "rows_of db ?A = tbl_rows t" by (simp add: rows_of_def t)
  show ?thesis
  proof (cases "find_user db g")
    case None
    with ok show ?thesis by (simp add: grant_def)
  next
    case g: (Some gr)
    show ?thesis
    proof (cases "is_admin db gr")
      case False
      with ok g show ?thesis by (simp add: grant_def)
    next
      case adm: True
      show ?thesis
      proof (cases "find_user db u")
        case None
        with ok g adm show ?thesis by (simp add: grant_def)
      next
        case u: (Some ur)
        show ?thesis
        proof (cases "list_ex (grant_of u n) (tbl_rows t)")
          case True
          with regrant [OF g adm u, of n now] rows update_keeps_table_ok [OF ok]
          show ?thesis by simp
        next
          case False
          let ?new = "[(''id'', SInt (tbl_seq t + 1)), (''user_id'', SInt u), (''db_name'', SText n),
                  (''granted_by'', SInt g), (''is_active'', SInt 1),
                  (''gmt_created'', SInt now), (''gmt_modified'', SInt now)]"
          let ?t' = "t\<lparr>tbl_rows := tbl_rows t @ [?new], tbl_seq := tbl_seq t + 1\<rparr>"
          from grant_new [OF t td ids g adm u False]
          have db1: "snd (grant now db g u n) = put_table ?t' db" by simp
          have n: "tbl_name (tbl_def ?t') = ?A" using find_table_name [OF t] by simp
          have ft: "find_table (put_table ?t' db) ?A = Some ?t'"
            using t n by (simp add: find_table_put_table)
          have c: "list_all (\<lambda>r. map fst r = map col_name (tbl_columns user_db_access_def))
                     (tbl_rows ?t')"
            using cols by (simp add: user_db_access_def_def col_def)
          have rid: "row_id ?t' r = row_id t r" for r by (simp add: row_id_def)
          have "row_id t ?new = tbl_seq t + 1"
            by (simp add: row_id_def td user_db_access_def_def field_def)
          with ids have i: "list_all (\<lambda>r. row_id ?t' r \<le> tbl_seq ?t') (tbl_rows ?t')"
            by (auto simp add: list_all_iff rid)
          from False have "(SInt u, SText n)
              \<notin> set (map (\<lambda>r. (field r ''user_id'', field r ''db_name'')) (tbl_rows t))"
            by (auto simp add: list_ex_iff grant_of_def)
          with dist have d: "distinct (map (\<lambda>r. (field r ''user_id'', field r ''db_name''))
                                (tbl_rows ?t'))"
            by (simp add: field_def)
          from ft td c i d show ?thesis
            by (simp add: grants_table_ok_def db1)
        qed
      qed
    qed
  qed
qed

text \<open>
  C6.  For an admin granter and an existing grantee, two grants of the same database to
  the same user both succeed, and afterwards the table holds exactly one row for the pair
  and it is active; the second grant leaves the rows of the table as the first one left
  them.
\<close>

theorem grant_twice_one_active_row:
  assumes ok: "grants_table_ok db"
    and g: "find_user db granter = Some gr" and adm: "is_admin db gr"
    and u: "find_user db grantee = Some ur"
  shows "\<exists>db1 db2. grant now db granter grantee dbName = (Inr (), db1)
           \<and> grant now' db1 granter grantee dbName = (Inr (), db2)
           \<and> length (active_grants db2 grantee dbName) = 1
           \<and> length (filter (grant_of grantee dbName)
                        (rows_of db2 ''dbgpt_serve_auth_user_db_access'')) = 1
           \<and> rows_of db2 ''dbgpt_serve_auth_user_db_access''
               = rows_of db1 ''dbgpt_serve_auth_user_db_access''"
proof -
  let ?A = "''dbgpt_serve_auth_user_db_access''"
  from first_grant [OF ok g adm u, of now dbName]
  obtain db1 where 1: "grant now db granter grantee dbName = (Inr (), db1)"
    and us: "rows_of db1 ''dbgpt_serve_auth_users'' = rows_of db ''dbgpt_serve_auth_users''"
    and ro: "rows_of db1 ''dbgpt_serve_auth_roles'' = rows_of db ''dbgpt_serve_auth_roles''"
    and gr1: "granted grantee dbName (rows_of db1 ?A)"
    by blast
  let ?db2 = "update_where db1 ?A (grant_of grantee dbName) ''is_active'' (SInt 1)"
  from g adm u have g1: "find_user db1 granter = Some gr" and a1: "is_admin db1 gr"
    and u1: "find_user db1 grantee = Some ur"
    by (simp_all add: find_user_users [OF us] is_admin_roles [OF ro])
  from regrant [OF g1 a1 u1 granted_ex [OF gr1]]
  have 2: "grant now' db1 granter grantee dbName = (Inr (), ?db2)" .
  have same: "rows_of ?db2 ?A = rows_of db1 ?A"
    by (simp add: rows_of_update_same granted_fixed [OF gr1])
  have act: "length (active_grants ?db2 grantee dbName) = 1"
    using gr1 by (simp add: active_grants_def same granted_active [OF gr1] granted_def)
  have one: "length (filter (grant_of grantee dbName) (rows_of ?db2 ?A)) = 1"
    using gr1 by (simp add: same granted_def)
  from 1 2 act one same show ?thesis by blast
qed


theorem grant_twice_one_active_row_witness:
  "grants_table_ok sample_db
   \<and> is_admin sample_db (the (find_user sample_db 1))
   \<and> (\<exists>db1 db2. grant 20 sample_db 1 2 ''sales_db'' = (Inr (), db1)
         \<and> grant 21 db1 1 2 ''sales_db'' = (Inr (), db2)
         \<and> length (active_grants db2 2 ''sales_db'') = 1)"
proof -
  have h1: "grants_table_ok sample_db" by code_simp
  have h2: "find_user sample_db 1 = Some (the (find_user sample_db 1))" by code_simp
  have h3: "is_admin sample_db (the (find_user sample_db 1))" by code_simp
  have h4: "find_user sample_db 2 = Some (the (find_user sample_db 2))" by code_simp
  from grant_twice_one_active_row [OF h1 h2 h3 h4, of 20 "''sales_db''" 21] h1 h3
  show ?thesis by blast
qed


end
